theory Spec2Isabelle
  imports Complex_Main "HOL-Library.Sublist"
begin

section \<open>JavaScript strings and thrown values\<close>

text \<open>
  Strings are \<^typ>\<open>string\<close> (lists of 8-bit characters). \<open>toLowerCase\<close> lowers the
  ASCII letters, which is what the JavaScript method does on ASCII text; \<open>trim\<close> strips
  the ASCII white space and the no-break space. Numbers that carry a confidence are
  rationals: the sums \<open>0.3 + 0.1 * n\<close> and \<open>0.3 + (k / n) * 0.6\<close> are taken exactly.
  \<open>addLog\<close> only prepends a line to an in-memory list and cannot throw, so log lines
  are left out of the model.
\<close>

text \<open>
  The letters \<open>A\<close> to \<open>Z\<close> are the codes 65 to 90; adding 32 to one of them sets the
  bit of weight 32, which is clear in all of them.
\<close>

definition toLowerChar :: "char \<Rightarrow> char" where
  "toLowerChar c =
     (let n = (of_char c :: nat) in
      if 65 \<le> n \<and> n \<le> 90
      then (case c of Char b0 b1 b2 b3 b4 b5 b6 b7 \<Rightarrow> Char b0 b1 b2 b3 b4 True b6 b7)
      else c)"

definition toLowerCase :: "string \<Rightarrow> string" where
  "toLowerCase s = map toLowerChar s"

text \<open>\<open>s.includes(p)\<close>: \<open>p\<close> occurs in \<open>s\<close> as a contiguous substring.\<close>

fun str_includes :: "string \<Rightarrow> string \<Rightarrow> bool" where
  "str_includes [] p = (p = [])"
| "str_includes (c # cs) p = (prefix p (c # cs) \<or> str_includes cs p)"

text \<open>\<open>s.split(sep)\<close> for a one-character separator; \<open>''.split(',')\<close> is \<open>['']\<close>.\<close>

fun split_on :: "char \<Rightarrow> string \<Rightarrow> string list" where
  "split_on sep [] = [[]]"
| "split_on sep (c # cs) =
     (if c = sep then [] # split_on sep cs
      else (case split_on sep cs of
              [] \<Rightarrow> [[c]]
            | p # ps \<Rightarrow> (c # p) # ps))"

definition isWhiteSpace :: "char \<Rightarrow> bool" where
  "isWhiteSpace c = (of_char c \<in> {9, 10, 11, 12, 13, 32, 160 :: nat})"

definition trim :: "string \<Rightarrow> string" where
  "trim s = rev (dropWhile isWhiteSpace (rev (dropWhile isWhiteSpace s)))"

text \<open>\<open>s.substring(0, n)\<close>.\<close>

definition substring0 :: "nat \<Rightarrow> string \<Rightarrow> string" where
  "substring0 n s = take n s"

text \<open>
  A thrown value is an \<open>Error\<close> with its message, or some other value. The handlers
  read it with \<open>error instanceof Error ? error.message : 'Unknown error'\<close>.
\<close>

datatype js_error = Error string | NonError

fun error_message :: "js_error \<Rightarrow> string" where
  "error_message (Error m) = m"
| "error_message NonError = ''Unknown error''"

text \<open>
  The outermost handler of \<open>processEmails\<close> reads it with
  \<open>error instanceof Error ? error.message : 'Unknown error occurred'\<close>.
\<close>

fun error_message_occurred :: "js_error \<Rightarrow> string" where
  "error_message_occurred (Error m) = m"
| "error_message_occurred NonError = ''Unknown error occurred''"

section \<open>Data model (lib/types)\<close>

datatype rule_type = Whitelist | Blacklist

record rule =
  rule_id :: string
  rtype :: rule_type
  pattern :: string
  active :: bool

datatype parsed_type = Order | Estimate | Other

datatype email_status = Unprocessed | Processing | Processed | StatusError

datatype classification = CInbox | CWhitelist | CBlacklist | CPending | CUnsorted

record attachment =
  filename :: string
  contentType :: string
  att_size :: nat
  has_data :: bool

record parsed_data =
  ptype :: parsed_type
  pconfidence :: rat

record email =
  email_id :: string
  subject :: string
  from_hdr :: string
  to_hdr :: string
  date :: string
  body :: string
  attachments :: "attachment list"
  parsed :: "parsed_data option"
  status :: email_status
  classification :: "classification option"
  senderEmail :: "string option"

text \<open>
  The settings fields the pipeline reads. \<open>whitelistMap\<close> and \<open>blacklistMap\<close> are the
  \<open>_whitelistMap\<close> and \<open>_blacklistMap\<close> sets that the optimized job attaches; they are
  absent (\<open>None\<close>) in plain settings.
\<close>

record settings =
  username :: string
  orderKeywords :: "string option"
  estimateKeywords :: "string option"
  useAiProcessing :: bool
  aiProvider :: string
  googleApiKey :: "string option"
  whitelistMap :: "string set option"
  blacklistMap :: "string set option"

section \<open>Rule Matcher (classification-service: checkWhitelistStatus)\<close>

datatype route = Inbox | Unsorted | Skip

fun route_of_rule :: "rule \<Rightarrow> route" where
  "route_of_rule r = (case rtype r of Whitelist \<Rightarrow> Inbox | Blacklist \<Rightarrow> Skip)"

text \<open>First loop of the fallback: the first rule whose pattern equals the sender decides.\<close>

fun exact_scan :: "string \<Rightarrow> rule list \<Rightarrow> route option" where
  "exact_scan s [] = None"
| "exact_scan s (r # rs) =
     (if toLowerCase (pattern r) = s then Some (route_of_rule r) else exact_scan s rs)"

text \<open>Second loop: the first rule whose pattern contains the sender, or is contained in it.\<close>

fun contains_scan :: "string \<Rightarrow> rule list \<Rightarrow> route option" where
  "contains_scan s [] = None"
| "contains_scan s (r # rs) =
     (if str_includes s (toLowerCase (pattern r)) \<or> str_includes (toLowerCase (pattern r)) s
      then Some (route_of_rule r) else contains_scan s rs)"

text \<open>\<open>email.senderEmail?.toLowerCase() || ''\<close>.\<close>

definition sender_lower :: "email \<Rightarrow> string" where
  "sender_lower e = (case senderEmail e of None \<Rightarrow> [] | Some s \<Rightarrow> toLowerCase s)"

text \<open>
  The body of the \<open>try\<close> block. \<open>getRules\<close> is the outcome of the rule store when it is
  asked (\<open>Inl\<close>: it threw); it is only asked when the two sets are not both present.
\<close>

definition checkWhitelistStatus_try ::
  "js_error + rule list \<Rightarrow> email \<Rightarrow> settings \<Rightarrow> js_error + route" where
  "checkWhitelistStatus_try getRules e st =
     (let s = sender_lower e in
      case (whitelistMap st, blacklistMap st) of
        (Some wl, Some bl) \<Rightarrow>
          if s \<in> bl then Inr Skip
          else if s \<in> wl then Inr Inbox
          else Inr Unsorted
      | _ \<Rightarrow>
          (case getRules of
             Inl err \<Rightarrow> Inl err
           | Inr rules \<Rightarrow>
               (case exact_scan s rules of
                  Some r \<Rightarrow> Inr r
                | None \<Rightarrow>
                    (case contains_scan s rules of
                       Some r \<Rightarrow> Inr r
                     | None \<Rightarrow> Inr Unsorted))))"

text \<open>The \<open>catch\<close> block logs and returns \<open>'unsorted'\<close>.\<close>

definition checkWhitelistStatus :: "js_error + rule list \<Rightarrow> email \<Rightarrow> settings \<Rightarrow> route" where
  "checkWhitelistStatus getRules e st =
     (case checkWhitelistStatus_try getRules e st of
        Inl err \<Rightarrow> Unsorted
      | Inr r \<Rightarrow> r)"

text \<open>
  The optimized job (job-queue: processJob, and the process-optimized route) builds the
  two sets from the active rules and attaches them to the settings.
\<close>

definition optimizedSettings :: "rule list \<Rightarrow> settings \<Rightarrow> settings" where
  "optimizedSettings rules st =
     st\<lparr>whitelistMap :=
          Some (set (map (\<lambda>r. toLowerCase (pattern r))
                  (filter (\<lambda>r. rtype r = Whitelist \<and> active r) rules))),
        blacklistMap :=
          Some (set (map (\<lambda>r. toLowerCase (pattern r))
                  (filter (\<lambda>r. rtype r = Blacklist \<and> active r) rules)))\<rparr>"

section \<open>WeTransfer detection (email-file-service)\<close>

text \<open>
  The first match of \<open>/<([^>]+)>/\<close>: the text between the leftmost \<open><\<close> that is followed
  by at least one character other than \<open>>\<close> and then by a \<open>>\<close>.
\<close>

fun angle_match :: "string \<Rightarrow> string option" where
  "angle_match [] = None"
| "angle_match (c # cs) =
     (if c = CHR ''<'' then
        (if CHR ''>'' \<notin> set cs then None
         else if takeWhile (\<lambda>x. x \<noteq> CHR ''>'') cs = [] then angle_match cs
         else Some (takeWhile (\<lambda>x. x \<noteq> CHR ''>'') cs))
      else angle_match cs)"

text \<open>
  \<open>extractEmailAddress\<close> (email-service) and \<open>extractEmailFromFrom\<close> (email-file-service)
  have the same body.
\<close>

definition extractEmailAddress :: "string \<Rightarrow> string" where
  "extractEmailAddress fromField =
     (case angle_match fromField of
        Some m \<Rightarrow> toLowerCase m
      | None \<Rightarrow>
          (case find (\<lambda>part. str_includes part ''@'') (split_on CHR '' '' fromField) of
             Some emailLike \<Rightarrow> toLowerCase emailLike
           | None \<Rightarrow> toLowerCase fromField))"

text \<open>\<open>a || b\<close> on an optional string: the empty string is falsy.\<close>

fun or_default :: "string option \<Rightarrow> string \<Rightarrow> string" where
  "or_default None d = d"
| "or_default (Some s) d = (if s = [] then d else s)"

definition isWeTransferEmail :: "email \<Rightarrow> bool" where
  "isWeTransferEmail e =
     (let s = or_default (senderEmail e) (extractEmailAddress (from_hdr e)) in
      str_includes s ''wetransfer.com'' \<or> str_includes s ''we.tl''
      \<or> str_includes (toLowerCase (from_hdr e)) ''wetransfer'')"

section \<open>Classifier (classification-service)\<close>

record classification_result =
  ctype :: parsed_type
  confidence :: rat
  reasoning :: string

definition digit_char :: "nat \<Rightarrow> char" where
  "digit_char n = ''0123456789'' ! n"

text \<open>A number inside a template string: its decimal digits.\<close>

fun string_of_nat :: "nat \<Rightarrow> string" where
  "string_of_nat n =
     (if n < 10 then [digit_char n] else string_of_nat (n div 10) @ [digit_char (n mod 10)])"

declare string_of_nat.simps [simp del]

fun join :: "string \<Rightarrow> string list \<Rightarrow> string" where
  "join sep [] = []"
| "join sep [x] = x"
| "join sep (x # y # xs) = x @ sep @ join sep (y # xs)"

text \<open>\<open>settings.orderKeywords?.split(',').map(k => k.trim().toLowerCase()) || []\<close>.\<close>

definition keyword_list :: "string option \<Rightarrow> string list" where
  "keyword_list ks =
     (case ks of
        None \<Rightarrow> []
      | Some s \<Rightarrow> map (\<lambda>k. toLowerCase (trim k)) (split_on CHR '','' s))"

text \<open>
  The counting loop: \<open>for (const keyword of keywords) if (keyword && content.includes(keyword))
  score++\<close>.
\<close>

fun count_hits :: "string \<Rightarrow> string list \<Rightarrow> nat \<Rightarrow> nat" where
  "count_hits content [] score = score"
| "count_hits content (k # ks) score =
     count_hits content ks (if k \<noteq> [] \<and> str_includes content k then score + 1 else score)"

definition classifyByKeywords :: "email \<Rightarrow> settings \<Rightarrow> classification_result" where
  "classifyByKeywords e st =
     (let content = toLowerCase (subject e @ '' '' @ body e);
          orderKws = keyword_list (orderKeywords st);
          estimateKws = keyword_list (estimateKeywords st);
          orderScore = count_hits content orderKws 0;
          estimateScore = count_hits content estimateKws 0
      in
      if orderScore > estimateScore \<and> orderScore > 0 then
        \<lparr>ctype = Order,
         confidence = min (8 / 10) (3 / 10 + of_nat orderScore * (1 / 10)),
         reasoning = ''Found '' @ string_of_nat orderScore @ '' order keywords: ''
                     @ join '', '' (filter (str_includes content) orderKws)\<rparr>
      else if estimateScore > orderScore \<and> estimateScore > 0 then
        \<lparr>ctype = Estimate,
         confidence = min (8 / 10) (3 / 10 + of_nat estimateScore * (1 / 10)),
         reasoning = ''Found '' @ string_of_nat estimateScore @ '' estimate keywords: ''
                     @ join '', '' (filter (str_includes content) estimateKws)\<rparr>
      else
        \<lparr>ctype = Other, confidence = 5 / 10,
         reasoning = ''No clear keyword matches found''\<rparr>)"

text \<open>
  \<open>classifyWithAI\<close> catches every error of the provider call and resolves to a result;
  what it resolves to depends on the provider's reply and is the parameter \<open>ai\<close>. It is
  only awaited when \<open>useAiProcessing\<close> is set. Nothing else in the \<open>try\<close> block throws.
\<close>

definition classifyEmail ::
  "classification_result \<Rightarrow> email \<Rightarrow> settings \<Rightarrow> classification_result" where
  "classifyEmail ai e st =
     (if isWeTransferEmail e then
        \<lparr>ctype = Order, confidence = 95 / 100,
         reasoning = ''WeTransfer email automatically classified as order''\<rparr>
      else
        (let keywordResult = classifyByKeywords e st in
         if confidence keywordResult > 7 / 10 then keywordResult
         else if useAiProcessing st \<and> confidence ai > confidence keywordResult then ai
         else keywordResult))"

subsection \<open>The keyword stage as the specification words it\<close>






text \<open>
  A keyword is a case-insensitive substring hit in a text when, with every small letter
  of both written as its capital, the keyword is a contiguous part of the text.
\<close>

definition capital :: "char \<Rightarrow> char" where
  "capital c =
     (case map_of (zip ''abcdefghijklmnopqrstuvwxyz'' ''ABCDEFGHIJKLMNOPQRSTUVWXYZ'') c of
        Some u \<Rightarrow> u
      | None \<Rightarrow> c)"

definition occurs_ignoring_case :: "string \<Rightarrow> string \<Rightarrow> bool" where
  "occurs_ignoring_case k txt = sublist (map capital k) (map capital txt)"



section \<open>Ingestion Pipeline (classification-service, data-store, email-service)\<close>

text \<open>
  \<open>processEmailClassification\<close>. \<open>checkWhitelistStatus\<close> and \<open>classifyEmail\<close> absorb their
  own errors, so the \<open>catch\<close> block of this function is never entered. The routing result
  is \<open>'inbox'\<close> or \<open>'unsorted'\<close> when it is not \<open>'skip'\<close>, so the content is always
  classified. \<open>None\<close> is the \<open>null\<close> that tells the caller not to store the email.
\<close>

definition processEmailClassification ::
  "js_error + rule list \<Rightarrow> classification_result \<Rightarrow> email \<Rightarrow> settings \<Rightarrow> email option" where
  "processEmailClassification getRules ai e st =
     (case checkWhitelistStatus getRules e st of
        Skip \<Rightarrow> None
      | Inbox \<Rightarrow>
          (let r = classifyEmail ai e st in
           Some (e\<lparr>classification := Some CInbox,
                   parsed := Some \<lparr>ptype = ctype r, pconfidence = confidence r\<rparr>,
                   status := Processed\<rparr>))
      | Unsorted \<Rightarrow>
          (let r = classifyEmail ai e st in
           Some (e\<lparr>classification := Some CUnsorted,
                   parsed := Some \<lparr>ptype = ctype r, pconfidence = confidence r\<rparr>,
                   status := Processed\<rparr>)))"

text \<open>
  The process-wide variables: the email list and id counter of the data store, the
  \<open>shouldStop\<close> variable of the stop route, the \<open>shouldStopParsing\<close> variable of the parse
  route, and the timers that \<open>setTimeout\<close> has armed (delay in milliseconds).
\<close>

datatype timer_action = ResetStopFlags

record server_state =
  emails :: "email list"
  idCounter :: nat
  shouldStop :: bool
  shouldStopParsing :: bool
  timers :: "(nat \<times> timer_action) list"

text \<open>
  \<open>addEmail\<close>: a fresh id, push, save. A failed save is logged and swallowed, so the
  function does not throw. The id is the counter's digits; the clock and random parts of
  \<open>generateUniqueId\<close> are left out.
\<close>

definition addEmail :: "email \<Rightarrow> server_state \<Rightarrow> email \<times> server_state" where
  "addEmail e sv =
     (let n = idCounter sv + 1;
          newEmail = e\<lparr>email_id := string_of_nat n\<rparr>
      in (newEmail, sv\<lparr>emails := emails sv @ [newEmail], idCounter := n\<rparr>))"

text \<open>What \<open>simpleParser\<close> returns for a message, as far as the pipeline reads it.\<close>

record parsed_mail =
  pm_from_text :: "string option"
  pm_subject :: "string option"
  pm_to_text :: "string option"
  pm_date :: "string option"
  pm_text :: "string option"
  pm_html :: "string option"
  pm_attachments :: "attachment list"

text \<open>
  A fetched message: its UID, what \<open>simpleParser(message.source)\<close> does with it (\<open>Inl\<close>: it
  throws), the clock reading used when the mail has no date, and what \<open>classifyWithAI\<close>
  would resolve to for it.
\<close>

record message =
  uid :: nat
  parse_result :: "js_error + parsed_mail"
  now_iso :: string
  ai_result :: classification_result

definition build_email :: "settings \<Rightarrow> message \<Rightarrow> parsed_mail \<Rightarrow> email" where
  "build_email st m p =
     (let fromText = or_default (pm_from_text p) ''Unknown Sender'' in
      \<lparr>email_id = ''temp'',
       subject = or_default (pm_subject p) ''No Subject'',
       from_hdr = fromText,
       to_hdr = or_default (pm_to_text p) (username st),
       date = (case pm_date p of None \<Rightarrow> now_iso m | Some d \<Rightarrow> d),
       body = or_default (pm_text p) (or_default (pm_html p) ''No content''),
       attachments = pm_attachments p,
       parsed = None,
       status = Processed,
       classification = Some CPending,
       senderEmail = Some (extractEmailAddress fromText)\<rparr>)"

record pass_state =
  server :: server_state
  processedCount :: nat
  errors :: "string list"
  messageCount :: nat

definition error_line :: "nat \<Rightarrow> nat \<Rightarrow> js_error \<Rightarrow> string" where
  "error_line n u err =
     ''Failed to process message '' @ string_of_nat n @ '' (UID: '' @ string_of_nat u @ ''): ''
     @ error_message err"

text \<open>
  One iteration of \<open>for await (let message of messages)\<close>. The loop body reads no stop
  flag. A WeTransfer email does not go through the rules: it is stored as \<open>inbox\<close>, typed
  \<open>order\<close> at 0.9.
\<close>

definition process_message ::
  "js_error + rule list \<Rightarrow> settings \<Rightarrow> message \<Rightarrow> pass_state \<Rightarrow> pass_state" where
  "process_message getRules st m ps =
     (let n = messageCount ps + 1; ps1 = ps\<lparr>messageCount := n\<rparr> in
      case parse_result m of
        Inl err \<Rightarrow> ps1\<lparr>errors := errors ps1 @ [error_line n (uid m) err]\<rparr>
      | Inr p \<Rightarrow>
          (let tempEmail = build_email st m p;
               classifiedEmail =
                 (if isWeTransferEmail tempEmail then
                    Some (tempEmail\<lparr>email_id := [], classification := Some CInbox,
                            parsed := Some \<lparr>ptype = Order, pconfidence = 9 / 10\<rparr>\<rparr>)
                  else processEmailClassification getRules (ai_result m) tempEmail st)
           in case classifiedEmail of
                Some ce \<Rightarrow>
                  ps1\<lparr>server := snd (addEmail ce (server ps1)),
                      processedCount := processedCount ps1 + 1\<rparr>
              | None \<Rightarrow> ps1))"

fun process_messages ::
  "js_error + rule list \<Rightarrow> settings \<Rightarrow> message list \<Rightarrow> pass_state \<Rightarrow> pass_state" where
  "process_messages getRules st [] ps = ps"
| "process_messages getRules st (m # ms) ps =
     process_messages getRules st ms (process_message getRules st m ps)"

text \<open>
  The IMAP server as the pass sees it: whether \<open>connect\<close> and \<open>getMailboxLock\<close> throw,
  what \<open>search\<close> returns, and the messages that \<open>fetch\<close> yields. The stream of
  fetched messages is taken to end without an error, and the release of the lock and the
  logout in the \<open>finally\<close> block to succeed.
\<close>

record imap_env =
  connect_error :: "js_error option"
  lock_error :: "js_error option"
  search_result :: "js_error + nat list"
  fetched :: "message list"

record process_result =
  res_processedCount :: nat
  res_errors :: "string list"

definition userFriendlyMessage :: "string \<Rightarrow> string" where
  "userFriendlyMessage errorMessage =
     (if str_includes errorMessage ''ENOTFOUND'' \<or> str_includes errorMessage ''getaddrinfo'' then
        ''Cannot connect to IMAP server. Please check the server address and your internet connection.''
      else if str_includes errorMessage ''ECONNREFUSED'' then
        ''Connection refused by IMAP server. Please check the port number and SSL settings.''
      else if str_includes errorMessage ''Invalid credentials''
              \<or> str_includes errorMessage ''authentication'' then
        ''Authentication failed. Please check your username and password/app password.''
      else if str_includes errorMessage ''ETIMEDOUT'' \<or> str_includes errorMessage ''timeout'' then
        ''Connection timed out. Please check your network connection and server settings.''
      else errorMessage)"

text \<open>
  \<open>processEmails\<close>: \<open>Inl\<close> is the error thrown out of the pass (the server could not be
  reached or searched), \<open>Inr\<close> the returned counts. The server state is returned either
  way. A failed search is thrown again as an \<open>Error\<close> whose message starts with
  \<open>Failed to search for unread emails:\<close>, so that the outermost handler reads that
  message.
\<close>

definition processEmails ::
  "imap_env \<Rightarrow> js_error + rule list \<Rightarrow> settings \<Rightarrow> server_state
     \<Rightarrow> (js_error + process_result) \<times> server_state" where
  "processEmails env getRules st sv =
     (case connect_error env of
        Some err \<Rightarrow> (Inl (Error (userFriendlyMessage (error_message_occurred err))), sv)
      | None \<Rightarrow>
     (case lock_error env of
        Some err \<Rightarrow> (Inl (Error (userFriendlyMessage (error_message_occurred err))), sv)
      | None \<Rightarrow>
     (case search_result env of
        Inl err \<Rightarrow>
          (Inl (Error (userFriendlyMessage
                  (''Failed to search for unread emails: '' @ error_message err))), sv)
      | Inr searchResults \<Rightarrow>
          if length searchResults = 0 then
            (Inr \<lparr>res_processedCount = 0, res_errors = []\<rparr>, sv)
          else
            (let ps = process_messages getRules st (fetched env)
                        \<lparr>server = sv, processedCount = 0, errors = [], messageCount = 0\<rparr>
             in (Inr \<lparr>res_processedCount = processedCount ps, res_errors = errors ps\<rparr>,
                 server ps)))))"

text \<open>
  The stop route: both flags are set and a timer is armed that clears them after 5000 ms.
\<close>

definition stop_POST :: "server_state \<Rightarrow> server_state" where
  "stop_POST sv =
     sv\<lparr>shouldStop := True, shouldStopParsing := True,
        timers := timers sv @ [(5000, ResetStopFlags)]\<rparr>"

fun run_timer :: "timer_action \<Rightarrow> server_state \<Rightarrow> server_state" where
  "run_timer ResetStopFlags sv = sv\<lparr>shouldStop := False, shouldStopParsing := False\<rparr>"

text \<open>The oldest armed timer expires.\<close>

definition fire_timer :: "server_state \<Rightarrow> server_state" where
  "fire_timer sv =
     (case timers sv of
        [] \<Rightarrow> sv
      | (d, a) # ts \<Rightarrow> run_timer a (sv\<lparr>timers := ts\<rparr>))"

section \<open>Structured Extractor (ai-parsing-service)\<close>

text \<open>A value returned by \<open>JSON.parse\<close>. An object is the list of its properties.\<close>

datatype json =
  JNull | JBool bool | JNum rat | JStr string | JArr "json list" | JObj "(string \<times> json) list"

fun truthy :: "json \<Rightarrow> bool" where
  "truthy JNull = False"
| "truthy (JBool b) = b"
| "truthy (JNum n) = (n \<noteq> 0)"
| "truthy (JStr s) = (s \<noteq> [])"
| "truthy (JArr xs) = True"
| "truthy (JObj kvs) = True"

text \<open>
  \<open>v[key]\<close> for the keys the extractor reads (\<open>items\<close>, \<open>customerName\<close>,
  \<open>projectDescription\<close>, \<open>description\<close>): a \<open>TypeError\<close> on \<open>null\<close>, whose message
  names the key between single quotes (the character \<open>0x27\<close>); \<open>undefined\<close> (\<open>None\<close>) on
  a missing key and on a value that is not an object.
\<close>

fun get_prop :: "json \<Rightarrow> string \<Rightarrow> js_error + json option" where
  "get_prop JNull k =
     Inl (Error (''Cannot read properties of null (reading '' @ [CHR 0x27] @ k @ [CHR 0x27]
                 @ '')''))"
| "get_prop (JObj kvs) k = Inr (map_of kvs k)"
| "get_prop v k = Inr None"

fun truthy_opt :: "json option \<Rightarrow> bool" where
  "truthy_opt None = False"
| "truthy_opt (Some v) = truthy v"

datatype target_type = TOrder | TEstimate

record address =
  addr_name :: "string option"
  addr_address :: "string option"
  addr_city :: "string option"
  addr_state :: "string option"
  addr_zipCode :: "string option"

record line_item =
  description :: string
  quantity :: nat
  unitPrice :: "rat option"
  totalPrice :: "rat option"
  specifications :: "string option"

record order_data =
  od_orderNumber :: "string option"
  od_customerName :: "string option"
  od_customerEmail :: "string option"
  od_customerPhone :: "string option"
  od_items :: "line_item list"
  od_totalAmount :: "rat option"
  od_dueDate :: "string option"
  od_rushOrder :: "bool option"
  od_specialInstructions :: "string option"
  od_shippingAddress :: "address option"
  od_billingAddress :: "address option"

record estimate_data =
  ed_estimateNumber :: "string option"
  ed_customerName :: "string option"
  ed_customerEmail :: "string option"
  ed_customerPhone :: "string option"
  ed_projectDescription :: "string option"
  ed_items :: "line_item list"
  ed_totalAmount :: "rat option"
  ed_validUntil :: "string option"
  ed_notes :: "string option"
  ed_requestedDelivery :: "string option"

text \<open>The \<open>data\<close> of a result: the object the AI returned, or one of the fallback records.\<close>

datatype extracted_data =
  AIData json | FallbackOrder order_data | FallbackEstimate estimate_data

record email_file_data =
  folderPath :: string
  htmlFile :: string
  jsonFile :: string
  attachmentFiles :: "string list"
  parsedJsonFile :: "string option"

record parsed_email_data =
  pe_type :: target_type
  pe_data :: extracted_data
  pe_confidence :: rat
  pe_reasoning :: string
  attachmentsSaved :: "string list"
  emailFiles :: "email_file_data option"

text \<open>
  What the provider call does: \<open>fetch\<close> or the reading of the body throws, the request is
  aborted by the two-minute timer, the status is not a success (status and body text),
  or the reply is read and holds the text field or not.
\<close>

datatype http_outcome =
  CallThrows js_error | FetchAborted | HttpNotOk nat string | HttpOk "string option"

text \<open>
  The world around one extraction: the re-fetch of the message; the provider call, for
  the prompt made from a given email; \<open>JSON.parse\<close>; and the two writes of the File
  Archiver, \<open>saveEmailWithFiles\<close> for a given email and \<open>saveParsedDataJson\<close> into a
  given folder (\<open>Inl\<close>: the call throws).
\<close>

record extractor_env =
  refetch :: "js_error + email"
  http :: "email \<Rightarrow> http_outcome"
  json_parse :: "string \<Rightarrow> js_error + json"
  save_email :: "email \<Rightarrow> js_error + email_file_data"
  save_parsed :: "string \<Rightarrow> js_error + string"

definition callGoogleAI :: "http_outcome \<Rightarrow> settings \<Rightarrow> js_error + string" where
  "callGoogleAI h st =
     (if or_default (googleApiKey st) [] = [] then Inl (Error ''Google API key not configured'')
      else
        (case h of
           CallThrows err \<Rightarrow> Inl err
         | FetchAborted \<Rightarrow> Inl (Error ''Google AI API call timed out after 2 minutes'')
         | HttpNotOk code txt \<Rightarrow>
             Inl (Error (''Google AI API error: '' @ string_of_nat code @ '' - '' @ txt))
         | HttpOk t \<Rightarrow>
             (if or_default t [] = [] then Inl (Error ''No response from Google AI'')
              else Inr (or_default t []))))"

definition callOllamaAI :: "http_outcome \<Rightarrow> js_error + string" where
  "callOllamaAI h =
     (case h of
        CallThrows err \<Rightarrow> Inl err
      | FetchAborted \<Rightarrow> Inl (Error ''This operation was aborted'')
      | HttpNotOk code txt \<Rightarrow>
          Inl (Error (''Ollama API error: '' @ string_of_nat code @ '' - '' @ txt))
      | HttpOk t \<Rightarrow>
          (if or_default t [] = [] then Inl (Error ''No response from Ollama'')
           else Inr (or_default t [])))"

definition call_ai :: "http_outcome \<Rightarrow> settings \<Rightarrow> js_error + string" where
  "call_ai h st =
     (if aiProvider st = ''google'' then callGoogleAI h st
      else if aiProvider st = ''ollama'' then callOllamaAI h
      else Inl (Error (''Unsupported AI provider: '' @ aiProvider st)))"

text \<open>
  The match of \<open>/\{[\s\S]*\}/\<close>: from the first opening brace to the last closing brace
  after it.
\<close>

definition json_match :: "string \<Rightarrow> string option" where
  "json_match s =
     (let r = dropWhile (\<lambda>c. c \<noteq> CHR ''{'') s;
          m = rev (dropWhile (\<lambda>c. c \<noteq> CHR ''}'') (rev r))
      in if m = [] then None else Some m)"

fun requiredFields :: "target_type \<Rightarrow> string list" where
  "requiredFields TOrder = [''customerName'', ''items'']"
| "requiredFields TEstimate = [''customerName'', ''items'', ''projectDescription'']"

text \<open>\<open>requiredFields.filter(field => parsed[field] && parsed[field] !== null)\<close>.\<close>

definition presentFields :: "target_type \<Rightarrow> json \<Rightarrow> string list" where
  "presentFields ty obj =
     filter (\<lambda>field. case get_prop obj field of Inl err \<Rightarrow> False | Inr v \<Rightarrow> truthy_opt v)
       (requiredFields ty)"

text \<open>\<open>parsed.items.length > 0 && parsed.items[0].description\<close>, which throws on a \<open>null\<close> item.\<close>

definition first_item_described :: "json list \<Rightarrow> js_error + bool" where
  "first_item_described its =
     (case its of
        [] \<Rightarrow> Inr False
      | it # rest \<Rightarrow>
          (case get_prop it ''description'' of
             Inl err \<Rightarrow> Inl err
           | Inr v \<Rightarrow> Inr (truthy_opt v)))"

text \<open>\<open>if (!parsed.items || !Array.isArray(parsed.items)) throw ...\<close>.\<close>

definition items_array :: "json \<Rightarrow> js_error + json list" where
  "items_array obj =
     (case get_prop obj ''items'' of
        Inl err \<Rightarrow> Inl err
      | Inr None \<Rightarrow> Inl (Error ''Invalid items array in parsed data'')
      | Inr (Some v) \<Rightarrow>
          (case v of
             JArr its \<Rightarrow> Inr its
           | _ \<Rightarrow> Inl (Error ''Invalid items array in parsed data'')))"

text \<open>
  The confidence: \<open>Math.min(0.95, 0.3 + (present / required) * 0.6)\<close>, plus 0.1 when
  the first item has a description, then \<open>Math.max(0.1, Math.min(0.95, confidence))\<close>.
\<close>

definition extraction_confidence :: "nat \<Rightarrow> nat \<Rightarrow> bool \<Rightarrow> rat" where
  "extraction_confidence present required bonus =
     (let c0 = min (95 / 100) (3 / 10 + (of_nat present / of_nat required) * (6 / 10));
          c1 = (if bonus then c0 + 1 / 10 else c0)
      in max (1 / 10) (min (95 / 100) c1))"

definition parsed_result :: "target_type \<Rightarrow> json \<Rightarrow> json list \<Rightarrow> bool \<Rightarrow> parsed_email_data" where
  "parsed_result ty obj its bonus =
     \<lparr>pe_type = ty,
      pe_data = AIData obj,
      pe_confidence =
        extraction_confidence (length (presentFields ty obj)) (length (requiredFields ty)) bonus,
      pe_reasoning =
        ''Successfully parsed '' @ string_of_nat (length its) @ '' items with ''
        @ string_of_nat (length (presentFields ty obj)) @ ''/''
        @ string_of_nat (length (requiredFields ty)) @ '' required fields'',
      attachmentsSaved = [],
      emailFiles = None\<rparr>"

text \<open>The body of the \<open>try\<close> block of \<open>parseAIParsingResponse\<close>.\<close>

definition parseAIParsingResponse_try ::
  "(string \<Rightarrow> js_error + json) \<Rightarrow> string \<Rightarrow> target_type \<Rightarrow> js_error + parsed_email_data" where
  "parseAIParsingResponse_try jparse response ty =
     (let trimmed = trim response;
          cleanResponse = (case json_match trimmed of Some m \<Rightarrow> m | None \<Rightarrow> trimmed)
      in
      case jparse cleanResponse of
        Inl err \<Rightarrow> Inl err
      | Inr obj \<Rightarrow>
          (case items_array obj of
             Inl err \<Rightarrow> Inl err
           | Inr its \<Rightarrow>
               (case first_item_described its of
                  Inl err \<Rightarrow> Inl err
                | Inr bonus \<Rightarrow> Inr (parsed_result ty obj its bonus))))"

text \<open>Its \<open>catch\<close> block wraps the message and throws again.\<close>

definition parseAIParsingResponse ::
  "(string \<Rightarrow> js_error + json) \<Rightarrow> string \<Rightarrow> target_type \<Rightarrow> js_error + parsed_email_data" where
  "parseAIParsingResponse jparse response ty =
     (case parseAIParsingResponse_try jparse response ty of
        Inl err \<Rightarrow> Inl (Error (''Failed to parse AI response: '' @ error_message err))
      | Inr r \<Rightarrow> Inr r)"

text \<open>
  \<open>extractCustomerName\<close>. The first pattern, \<open>/^"?([^"<]+)"?\s*</\<close>, matches when the
  text, after an optional leading quote, starts with a non-empty run of characters other
  than \<open>"\<close> and \<open><\<close> that is followed by \<open><\<close>, or by a quote, white space and \<open><\<close>; the
  group is the run. The second, \<open>/([^@]+)@/\<close>, matches the run of characters before the
  first \<open>@\<close> that has one.
\<close>

definition name_match :: "string \<Rightarrow> string option" where
  "name_match s =
     (let s1 = (case s of c # cs \<Rightarrow> if c = CHR 0x22 then cs else s | [] \<Rightarrow> s);
          run = takeWhile (\<lambda>c. c \<noteq> CHR 0x22 \<and> c \<noteq> CHR ''<'') s1;
          rest = dropWhile (\<lambda>c. c \<noteq> CHR 0x22 \<and> c \<noteq> CHR ''<'') s1
      in
      if run = [] then None
      else
        (case rest of
           [] \<Rightarrow> None
         | c # cs \<Rightarrow>
             if c = CHR ''<'' then Some run
             else (case dropWhile isWhiteSpace cs of
                     [] \<Rightarrow> None
                   | d # ds \<Rightarrow> if d = CHR ''<'' then Some run else None)))"

definition local_part_match :: "string \<Rightarrow> string option" where
  "local_part_match s =
     (let s1 = dropWhile (\<lambda>c. c = CHR ''@'') s;
          run = takeWhile (\<lambda>c. c \<noteq> CHR ''@'') s1;
          rest = dropWhile (\<lambda>c. c \<noteq> CHR ''@'') s1
      in if run \<noteq> [] \<and> rest \<noteq> [] then Some run else None)"

definition extractCustomerName :: "string \<Rightarrow> string option" where
  "extractCustomerName fromField =
     (case name_match fromField of
        Some m \<Rightarrow> Some (trim m)
      | None \<Rightarrow>
          (case local_part_match fromField of
             Some m \<Rightarrow>
               Some (trim (map (\<lambda>c. if c = CHR ''.'' \<or> c = CHR ''_'' then CHR '' '' else c) m))
           | None \<Rightarrow> None))"

text \<open>\<open>x || undefined\<close> on an optional string.\<close>

fun or_undefined :: "string option \<Rightarrow> string option" where
  "or_undefined None = None"
| "or_undefined (Some s) = (if s = [] then None else Some s)"

definition createFallbackOrderData :: "email \<Rightarrow> order_data" where
  "createFallbackOrderData e =
     \<lparr>od_orderNumber = None,
      od_customerName = or_undefined (extractCustomerName (from_hdr e)),
      od_customerEmail = or_undefined (senderEmail e),
      od_customerPhone = None,
      od_items = [\<lparr>description = ''Order from email: '' @ subject e, quantity = 1,
                   unitPrice = None, totalPrice = None, specifications = None\<rparr>],
      od_totalAmount = None,
      od_dueDate = None,
      od_rushOrder = Some (str_includes (toLowerCase (subject e)) ''rush''),
      od_specialInstructions = Some (substring0 500 (body e)),
      od_shippingAddress = None,
      od_billingAddress = None\<rparr>"

definition createFallbackEstimateData :: "email \<Rightarrow> estimate_data" where
  "createFallbackEstimateData e =
     \<lparr>ed_estimateNumber = None,
      ed_customerName = or_undefined (extractCustomerName (from_hdr e)),
      ed_customerEmail = or_undefined (senderEmail e),
      ed_customerPhone = None,
      ed_projectDescription = Some (subject e),
      ed_items = [\<lparr>description = ''Estimate request from email: '' @ subject e, quantity = 1,
                   unitPrice = None, totalPrice = None, specifications = None\<rparr>],
      ed_totalAmount = None,
      ed_validUntil = None,
      ed_notes = Some (substring0 500 (body e)),
      ed_requestedDelivery = None\<rparr>"

text \<open>Step 1: WeTransfer forces \<open>order\<close>; otherwise \<open>order\<close> only for a parsed type of \<open>order\<close>.\<close>

definition expectedType :: "email \<Rightarrow> target_type" where
  "expectedType e =
     (if isWeTransferEmail e then TOrder
      else (case parsed e of
              Some p \<Rightarrow> if ptype p = Order then TOrder else TEstimate
            | None \<Rightarrow> TEstimate))"

text \<open>The record that the outer \<open>catch\<close> block returns.\<close>

definition fallback_result :: "email \<Rightarrow> js_error \<Rightarrow> parsed_email_data" where
  "fallback_result e err =
     (let fallbackType = expectedType e in
      \<lparr>pe_type = fallbackType,
       pe_data = (case fallbackType of
                    TOrder \<Rightarrow> FallbackOrder (createFallbackOrderData e)
                  | TEstimate \<Rightarrow> FallbackEstimate (createFallbackEstimateData e)),
       pe_confidence = 1 / 10,
       pe_reasoning = ''AI parsing failed: '' @ error_message err,
       attachmentsSaved = [],
       emailFiles = None\<rparr>)"

text \<open>
  The email that the prompt and the archive are made from: the re-fetched one when files
  are to be saved and the email has no attachments. A failed re-fetch is caught on the
  spot (\<open>Continue with original email\<close>).
\<close>

definition full_email :: "extractor_env \<Rightarrow> email \<Rightarrow> bool \<Rightarrow> email" where
  "full_email env e saveFiles =
     (if saveFiles \<and> attachments e = []
      then (case refetch env of Inl err \<Rightarrow> e | Inr fe \<Rightarrow> fe)
      else e)"

text \<open>
  The file-saving block. Its own \<open>catch\<close> logs the error and goes on (\<open>Continue without
  file saving\<close>), keeping what was assigned before the throw: nothing when the email
  archive could not be written; the archive, without the name of the parsed-data file,
  when only that file could not be written.
\<close>

definition save_files ::
  "extractor_env \<Rightarrow> email \<Rightarrow> string list \<times> email_file_data option" where
  "save_files env fullEmail =
     (case save_email env fullEmail of
        Inl err \<Rightarrow> ([], None)
      | Inr ef \<Rightarrow>
          if folderPath ef \<noteq> [] then
            (case save_parsed env (folderPath ef) of
               Inl err \<Rightarrow> (attachmentFiles ef, Some ef)
             | Inr f \<Rightarrow> (attachmentFiles ef, Some (ef\<lparr>parsedJsonFile := Some f\<rparr>)))
          else (attachmentFiles ef, Some ef))"

text \<open>
  The body of the outer \<open>try\<close> block of \<open>parseEmailWithAI\<close>. The prompt, made from the
  full email, only goes to the provider, whose answer is part of the environment.
\<close>

definition parseEmailWithAI_try ::
  "extractor_env \<Rightarrow> email \<Rightarrow> settings \<Rightarrow> bool \<Rightarrow> js_error + parsed_email_data" where
  "parseEmailWithAI_try env e st saveFiles =
     (let ty = expectedType e;
          fullEmail = full_email env e saveFiles
      in
      case call_ai (http env fullEmail) st of
        Inl err \<Rightarrow> Inl err
      | Inr aiResponse \<Rightarrow>
          (case parseAIParsingResponse (json_parse env) aiResponse ty of
             Inl err \<Rightarrow> Inl err
           | Inr parsedData \<Rightarrow>
               (if saveFiles then
                  (case save_files env fullEmail of
                     (saved, files) \<Rightarrow>
                       Inr (parsedData\<lparr>attachmentsSaved := saved, emailFiles := files\<rparr>))
                else Inr (parsedData\<lparr>attachmentsSaved := [], emailFiles := None\<rparr>))))"

text \<open>
  \<open>parseEmailWithAI\<close>: whatever the \<open>try\<close> block throws, the \<open>catch\<close> block returns the
  fallback record. The statements of the \<open>catch\<close> block do not throw, so the promise
  always resolves, and the model is a total function.
\<close>

definition parseEmailWithAI ::
  "extractor_env \<Rightarrow> email \<Rightarrow> settings \<Rightarrow> bool \<Rightarrow> parsed_email_data" where
  "parseEmailWithAI env e st saveFiles =
     (case parseEmailWithAI_try env e st saveFiles of
        Inl err \<Rightarrow> fallback_result e err
      | Inr r \<Rightarrow> r)"

section \<open>Job Runner (job-queue, jobs route)\<close>

datatype job_kind = EmailProcessing | EmailProcessingOptimized

datatype job_status = Pending | Running | Completed | Failed

record job =
  job_id :: string
  job_type :: job_kind
  job_status :: job_status
  progress :: int
  startTime :: "nat option"
  endTime :: "nat option"
  job_result :: "process_result option"
  job_error :: "string option"
  job_settings :: "settings option"
  currentOperation :: "string option"
  totalEmails :: "nat option"
  processedEmails :: "nat option"

text \<open>
  The module variables of the job queue. \<open>jobs\<close> is the \<open>Map\<close>, in insertion order, with
  one entry for each key.
\<close>

record jq_state =
  jobs :: "(string \<times> job) list"
  currentJob :: "job option"
  jobIdCounter :: nat

text \<open>\<open>Map.set\<close>: an existing key keeps its place, a new key goes to the end.\<close>

fun map_set :: "string \<Rightarrow> job \<Rightarrow> (string \<times> job) list \<Rightarrow> (string \<times> job) list" where
  "map_set k v [] = [(k, v)]"
| "map_set k v ((k', v') # kvs) =
     (if k' = k then (k, v) # kvs else (k', v') # map_set k v kvs)"

fun kind_name :: "job_kind \<Rightarrow> string" where
  "kind_name EmailProcessing = ''email-processing''"
| "kind_name EmailProcessingOptimized = ''email-processing-optimized''"

text \<open>
  \<open>createJob\<close>. The id is the type and the counter; the clock and random parts of
  \<open>generateUniqueJobId\<close> are left out.
\<close>

definition createJob :: "job_kind \<Rightarrow> settings \<Rightarrow> jq_state \<Rightarrow> job \<times> jq_state" where
  "createJob ty st q =
     (let n = jobIdCounter q + 1;
          j = \<lparr>job_id = kind_name ty @ ''-'' @ string_of_nat n, job_type = ty,
               job_status = Pending, progress = 0, startTime = None, endTime = None,
               job_result = None, job_error = None, job_settings = Some st,
               currentOperation = None, totalEmails = None, processedEmails = None\<rparr>
      in (j, q\<lparr>jobs := map_set (job_id j) j (jobs q), jobIdCounter := n\<rparr>))"

definition getCurrentJob :: "jq_state \<Rightarrow> job option" where
  "getCurrentJob q = currentJob q"

text \<open>
  \<open>updateJob\<close>: the stored job is replaced by its updated copy, and so is the current job
  when it has the same id. \<open>upd\<close> is the spread of the \<open>updates\<close> object over the job.
\<close>

definition updateJob :: "string \<Rightarrow> (job \<Rightarrow> job) \<Rightarrow> jq_state \<Rightarrow> jq_state" where
  "updateJob k upd q =
     (case map_of (jobs q) k of
        None \<Rightarrow> q
      | Some j \<Rightarrow>
          (let updatedJob = upd j;
               q1 = q\<lparr>jobs := map_set k updatedJob (jobs q)\<rparr>
           in case currentJob q1 of
                None \<Rightarrow> q1
              | Some c \<Rightarrow> if job_id c = k then q1\<lparr>currentJob := Some updatedJob\<rparr> else q1))"

text \<open>\<open>getAllJobs\<close>: the jobs by start time, latest first (the sort is stable).\<close>

definition getAllJobs :: "jq_state \<Rightarrow> job list" where
  "getAllJobs q =
     sort_key (\<lambda>j. - int (case startTime j of None \<Rightarrow> 0 | Some t \<Rightarrow> t)) (map snd (jobs q))"

definition cleanupJobs :: "jq_state \<Rightarrow> jq_state" where
  "cleanupJobs q =
     (let completedJobs =
            filter (\<lambda>j. job_status j = Completed \<or> job_status j = Failed) (getAllJobs q)
      in if length completedJobs > 10
         then q\<lparr>jobs := filter (\<lambda>(k, j). k \<notin> set (map job_id (drop 10 completedJobs))) (jobs q)\<rparr>
         else q)"

text \<open>
  \<open>processJob\<close> runs in pieces, one between each two \<open>await\<close>s; other request handlers
  run in between. The first piece ends at \<open>await addLog(...)\<close>: it checks the current
  job and takes the slot, with the job still \<open>pending\<close>.
\<close>

definition processJob_begin :: "job \<Rightarrow> jq_state \<Rightarrow> js_error + jq_state" where
  "processJob_begin j q =
     (case currentJob q of
        Some c \<Rightarrow>
          if job_status c = Running then Inl (Error ''Another job is already running'')
          else Inr (q\<lparr>currentJob := Some j\<rparr>)
      | None \<Rightarrow> Inr (q\<lparr>currentJob := Some j\<rparr>))"

text \<open>The second piece marks the job \<open>running\<close>; \<open>now\<close> is the clock.\<close>

definition processJob_resume :: "job \<Rightarrow> nat \<Rightarrow> jq_state \<Rightarrow> jq_state" where
  "processJob_resume j now q =
     updateJob (job_id j) (\<lambda>x. x\<lparr>job_status := Running, startTime := Some now, progress := 0\<rparr>) q"

definition progressCallback ::
  "job \<Rightarrow> string \<Rightarrow> int \<Rightarrow> nat option \<Rightarrow> nat option \<Rightarrow> jq_state \<Rightarrow> jq_state" where
  "progressCallback j operation p tot proc q =
     updateJob (job_id j)
       (\<lambda>x. x\<lparr>currentOperation := Some operation, progress := min 100 (max 0 p),
              totalEmails := tot, processedEmails := proc\<rparr>) q"

text \<open>
  The pass of a job: the optimized kind loads the rules and attaches the two sets to the
  settings first, and fails when the rule store throws.
\<close>

definition processJob_pass ::
  "imap_env \<Rightarrow> js_error + rule list \<Rightarrow> job \<Rightarrow> settings \<Rightarrow> server_state
     \<Rightarrow> (js_error + process_result) \<times> server_state" where
  "processJob_pass env getRules j st sv =
     (case job_type j of
        EmailProcessingOptimized \<Rightarrow>
          (case getRules of
             Inl err \<Rightarrow> (Inl err, sv)
           | Inr rules \<Rightarrow> processEmails env getRules (optimizedSettings rules st) sv)
      | EmailProcessing \<Rightarrow> processEmails env getRules st sv)"

text \<open>The end of the \<open>try\<close> block, the \<open>catch\<close> block, and the \<open>finally\<close> block.\<close>

definition processJob_complete :: "job \<Rightarrow> process_result \<Rightarrow> nat \<Rightarrow> jq_state \<Rightarrow> jq_state" where
  "processJob_complete j res now q =
     updateJob (job_id j)
       (\<lambda>x. x\<lparr>job_status := Completed, endTime := Some now, progress := 100,
              job_result := Some res\<rparr>) q"

definition processJob_fail :: "job \<Rightarrow> js_error \<Rightarrow> nat \<Rightarrow> jq_state \<Rightarrow> jq_state" where
  "processJob_fail j err now q =
     updateJob (job_id j)
       (\<lambda>x. x\<lparr>job_status := Failed, endTime := Some now,
              job_error := Some (error_message err)\<rparr>) q"

definition processJob_finally :: "jq_state \<Rightarrow> jq_state" where
  "processJob_finally q = q\<lparr>currentJob := None\<rparr>"

text \<open>The \<open>POST\<close> handler of the jobs route, from the parsed request body on.\<close>

record job_request =
  req_type :: string
  req_settings :: "settings option"

datatype job_response =
  BadRequest string | Conflict string job | Created job

definition jobs_POST :: "job_request \<Rightarrow> jq_state \<Rightarrow> job_response \<times> jq_state" where
  "jobs_POST req q =
     (if req_type req \<noteq> ''email-processing'' \<and> req_type req \<noteq> ''email-processing-optimized''
      then (BadRequest ''Invalid job type'', q)
      else
        (case req_settings req of
           None \<Rightarrow> (BadRequest ''Settings are required for email processing job'', q)
         | Some st \<Rightarrow>
             (case getCurrentJob q of
                Some c \<Rightarrow>
                  if job_status c = Running
                  then (Conflict ''Another email processing job is already running'' c, q)
                  else
                    (let (j, q1) = createJob (if req_type req = ''email-processing''
                                              then EmailProcessing
                                              else EmailProcessingOptimized) st q;
                         q2 = (case processJob_begin j q1 of Inl err \<Rightarrow> q1 | Inr q' \<Rightarrow> q')
                     in (Created j, cleanupJobs q2))
              | None \<Rightarrow>
                  (let (j, q1) = createJob (if req_type req = ''email-processing''
                                            then EmailProcessing
                                            else EmailProcessingOptimized) st q;
                       q2 = (case processJob_begin j q1 of Inl err \<Rightarrow> q1 | Inr q' \<Rightarrow> q')
                   in (Created j, cleanupJobs q2)))))"

definition running_jobs :: "jq_state \<Rightarrow> job list" where
  "running_jobs q = filter (\<lambda>j. job_status j = Running) (map snd (jobs q))"

section \<open>Notions used in the statements\<close>

text \<open>
  What becomes of a fetched message in a pass: it fails when the parser throws; it is
  skipped when it is not a WeTransfer email and the rules route it \<open>skip\<close>; the error
  lines of a run of messages, the first of which is message number \<open>n + 1\<close>.
\<close>

definition is_failed :: "message \<Rightarrow> bool" where
  "is_failed m = (case parse_result m of Inl err \<Rightarrow> True | Inr p \<Rightarrow> False)"

definition is_skipped :: "js_error + rule list \<Rightarrow> settings \<Rightarrow> message \<Rightarrow> bool" where
  "is_skipped getRules st m =
     (case parse_result m of
        Inl err \<Rightarrow> False
      | Inr p \<Rightarrow>
          \<not> isWeTransferEmail (build_email st m p)
          \<and> checkWhitelistStatus getRules (build_email st m p) st = Skip)"

fun error_lines :: "nat \<Rightarrow> message list \<Rightarrow> string list" where
  "error_lines n [] = []"
| "error_lines n (m # ms) =
     (case parse_result m of
        Inl err \<Rightarrow> [error_line (n + 1) (uid m) err]
      | Inr p \<Rightarrow> [])
     @ error_lines (n + 1) ms"

text \<open>An email that a pass stores is a WeTransfer email or one the rules did not skip.\<close>

definition may_store :: "js_error + rule list \<Rightarrow> settings \<Rightarrow> email \<Rightarrow> bool" where
  "may_store gr st e = (isWeTransferEmail e \<or> checkWhitelistStatus gr e st \<noteq> Skip)"

text \<open>Two states of a pass that agree on everything but the stop flags and the timers.\<close>

definition same_data :: "pass_state \<Rightarrow> pass_state \<Rightarrow> bool" where
  "same_data a b =
     (processedCount a = processedCount b \<and> errors a = errors b
      \<and> messageCount a = messageCount b
      \<and> emails (server a) = emails (server b) \<and> idCounter (server a) = idCounter (server b))"

section \<open>Concrete inputs\<close>

definition mk_rule :: "rule_type \<Rightarrow> string \<Rightarrow> rule" where
  "mk_rule t p = \<lparr>rule_id = ''r'', rtype = t, pattern = p, active = True\<rparr>"

definition mk_email :: "string \<Rightarrow> string \<Rightarrow> string \<Rightarrow> string \<Rightarrow> email" where
  "mk_email subj frm sender bdy =
     \<lparr>email_id = ''temp'', subject = subj, from_hdr = frm, to_hdr = ''shop@example.com'',
      date = ''2024-01-15T10:00:00.000Z'', body = bdy, attachments = [], parsed = None,
      status = Processed, classification = Some CPending, senderEmail = Some sender\<rparr>"

definition plain_settings :: settings where
  "plain_settings =
     \<lparr>username = ''shop@example.com'', orderKeywords = None, estimateKeywords = None,
      useAiProcessing = False, aiProvider = ''google'', googleApiKey = None,
      whitelistMap = None, blacklistMap = None\<rparr>"

text \<open>What \<open>classifyWithAI\<close> resolves to when the provider call fails.\<close>

definition failed_ai :: classification_result where
  "failed_ai =
     \<lparr>ctype = Other, confidence = 0,
      reasoning = ''AI classification failed: Unknown error''\<rparr>"





text \<open>A sender that a whitelist rule and a later blacklist rule both name.\<close>

definition client_email :: email where
  "client_email =
     mk_email ''Hello'' ''Client <client@acme.com>'' ''client@acme.com'' ''Hi there''"

definition both_rules :: "rule list" where
  "both_rules = [mk_rule Whitelist ''client@acme.com'', mk_rule Blacklist ''client@acme.com'']"

text \<open>A whitelisted domain and a blacklisted mailbox name, neither equal to the sender.\<close>

definition partial_rules :: "rule list" where
  "partial_rules = [mk_rule Whitelist ''acme.com'', mk_rule Blacklist ''client@'']"

text \<open>An order email, a reply with every required field and a reply without the customer.\<close>

definition google_settings :: settings where
  "google_settings = plain_settings\<lparr>googleApiKey := Some ''key-123''\<rparr>"

definition order_email :: email where
  "order_email =
     (mk_email ''Rush order: business cards'' ''Bob Smith <bob@print.example>''
        ''bob@print.example'' ''Please print 500 cards.'')
       \<lparr>parsed := Some \<lparr>ptype = Order, pconfidence = 8 / 10\<rparr>\<rparr>"

definition reply_full :: json where
  "reply_full =
     JObj [(''customerName'', JStr ''Bob Smith''),
           (''items'', JArr [JObj [(''description'', JStr ''Business cards''),
                                   (''quantity'', JNum 500)]])]"

definition reply_partial :: json where
  "reply_partial =
     JObj [(''customerName'', JNull),
           (''items'', JArr [JObj [(''description'', JStr ''Business cards''),
                                   (''quantity'', JNum 500)]])]"

text \<open>
  The two replies as JSON texts. \<open>dq\<close> is the double quote; the second text reads
  \<open>{"customerName": "Bob Smith", "items": [{"description": "Business cards",
  "quantity": 500}]}\<close> and the first has \<open>null\<close> for the name.
\<close>

definition dq :: string where
  "dq = [CHR 0x22]"

definition items_text :: string where
  "items_text =
     ''[{'' @ dq @ ''description'' @ dq @ '': '' @ dq @ ''Business cards'' @ dq @ '', ''
     @ dq @ ''quantity'' @ dq @ '': 500}]''"

definition reply_partial_text :: string where
  "reply_partial_text =
     ''{'' @ dq @ ''customerName'' @ dq @ '': null, '' @ dq @ ''items'' @ dq @ '': ''
     @ items_text @ ''}''"

definition reply_full_text :: string where
  "reply_full_text =
     ''{'' @ dq @ ''customerName'' @ dq @ '': '' @ dq @ ''Bob Smith'' @ dq @ '', ''
     @ dq @ ''items'' @ dq @ '': '' @ items_text @ ''}''"

text \<open>
  \<open>JSON.parse\<close> on these two texts; every other text that the examples hand to it is
  not JSON.
\<close>

definition sample_parse :: "string \<Rightarrow> js_error + json" where
  "sample_parse s =
     (if s = reply_partial_text then Inr reply_partial
      else if s = reply_full_text then Inr reply_full
      else Inl (Error ''Unexpected token in JSON''))"

text \<open>
  The AI answers with the full reply between two pieces of prose; the message cannot be
  fetched again and the archive folder cannot be written.
\<close>

definition ai_answer :: string where
  "ai_answer = ''Here is the data: '' @ reply_full_text @ '' Done.''"

definition archive_fail_env :: extractor_env where
  "archive_fail_env =
     \<lparr>refetch = Inl (Error ''Email not found in IMAP server''),
      http = (\<lambda>fullEmail. HttpOk (Some ai_answer)),
      json_parse = sample_parse,
      save_email = (\<lambda>fullEmail. Inl (Error ''EACCES: permission denied'')),
      save_parsed = (\<lambda>folder. Inl (Error ''EACCES: permission denied''))\<rparr>"

text \<open>
  The email archive is written, and the parsed-data file in its folder cannot be written.
\<close>

definition order_folder :: email_file_data where
  "order_folder =
     \<lparr>folderPath = ''data/email_files/Bob_Smith_2024-01-15_ORDER_VAR'',
      htmlFile = ''data/email_files/Bob_Smith_2024-01-15_ORDER_VAR/email_content.html'',
      jsonFile = ''data/email_files/Bob_Smith_2024-01-15_ORDER_VAR/email_metadata.json'',
      attachmentFiles = [],
      parsedJsonFile = None\<rparr>"

definition parsed_write_fail_env :: extractor_env where
  "parsed_write_fail_env =
     archive_fail_env
       \<lparr>save_email := (\<lambda>fullEmail. Inr order_folder),
        save_parsed := (\<lambda>folder. Inl (Error ''ENOSPC: no space left on device''))\<rparr>"

text \<open>What the extractor makes of that reply for an order.\<close>

definition parsed_full :: parsed_email_data where
  "parsed_full =
     parsed_result TOrder reply_full
       [JObj [(''description'', JStr ''Business cards''), (''quantity'', JNum 500)]] True"

text \<open>The AI answers with prose only.\<close>

definition garbled_env :: extractor_env where
  "garbled_env =
     archive_fail_env\<lparr>http := (\<lambda>fullEmail. HttpOk (Some ''I could not read this email.''))\<rparr>"

text \<open>The AI endpoint cannot be reached.\<close>

definition unreachable_env :: extractor_env where
  "unreachable_env =
     archive_fail_env\<lparr>http := (\<lambda>fullEmail. CallThrows (Error ''fetch failed''))\<rparr>"

text \<open>An order whose subject holds the letters of \<open>rush\<close> in capitals, inside a word.\<close>

definition crushed_email :: email where
  "crushed_email = order_email\<lparr>subject := ''CRUSHED VELVET BANNER''\<rparr>"

text \<open>A mailbox of three unseen messages, the second of which cannot be parsed.\<close>

definition mk_parsed_mail :: "string \<Rightarrow> string \<Rightarrow> string \<Rightarrow> parsed_mail" where
  "mk_parsed_mail frm subj txt =
     \<lparr>pm_from_text = Some frm, pm_subject = Some subj, pm_to_text = Some ''shop@example.com'',
      pm_date = Some ''2024-01-15T10:00:00.000Z'', pm_text = Some txt, pm_html = None,
      pm_attachments = []\<rparr>"

definition mk_message :: "nat \<Rightarrow> js_error + parsed_mail \<Rightarrow> message" where
  "mk_message u r =
     \<lparr>uid = u, parse_result = r, now_iso = ''2024-01-16T08:00:00.000Z'',
      ai_result = failed_ai\<rparr>"

definition good_message :: message where
  "good_message =
     mk_message 11 (Inr (mk_parsed_mail ''Alice <alice@example.com>'' ''Order 17''
                           ''Two banners please''))"

definition bad_message :: message where
  "bad_message = mk_message 12 (Inl (Error ''Bad MIME''))"

definition blocked_message :: message where
  "blocked_message =
     mk_message 13 (Inr (mk_parsed_mail ''Spam <spam@junk.example>'' ''You won'' ''Click here''))"

definition block_rules :: "rule list" where
  "block_rules = [mk_rule Blacklist ''spam@junk.example'']"

definition pass_env :: imap_env where
  "pass_env =
     \<lparr>connect_error = None, lock_error = None, search_result = Inr [11, 12, 13],
      fetched = [good_message, bad_message, blocked_message]\<rparr>"

definition empty_server :: server_state where
  "empty_server =
     \<lparr>emails = [], idCounter = 0, shouldStop = False, shouldStopParsing = False, timers = []\<rparr>"

text \<open>A mailbox with one message, sent through WeTransfer by a blacklisted address.\<close>

definition wt_message :: message where
  "wt_message =
     mk_message 21 (Inr (mk_parsed_mail ''Promo <promo@wetransfer.com>'' ''Files sent to you''
                           ''Download link''))"

definition wt_rules :: "rule list" where
  "wt_rules = [mk_rule Blacklist ''promo@wetransfer.com'']"

definition wt_env :: imap_env where
  "wt_env =
     \<lparr>connect_error = None, lock_error = None, search_result = Inr [21],
      fetched = [wt_message]\<rparr>"

text \<open>That message as a pass stores it.\<close>

definition wt_stored :: email where
  "wt_stored =
     \<lparr>email_id = ''1'', subject = ''Files sent to you'',
      from_hdr = ''Promo <promo@wetransfer.com>'',
      to_hdr = ''shop@example.com'', date = ''2024-01-15T10:00:00.000Z'',
      body = ''Download link'', attachments = [],
      parsed = Some \<lparr>ptype = Order, pconfidence = 9 / 10\<rparr>,
      status = Processed, classification = Some CInbox,
      senderEmail = Some ''promo@wetransfer.com''\<rparr>"

text \<open>A mailbox with one message from a sender whose domain is blacklisted.\<close>

definition domain_rules :: "rule list" where
  "domain_rules = [mk_rule Blacklist ''junk.example'']"

definition domain_env :: imap_env where
  "domain_env =
     \<lparr>connect_error = None, lock_error = None, search_result = Inr [13],
      fetched = [blocked_message]\<rparr>"

text \<open>A mailbox with two messages that both parse, for a pass that is asked to stop.\<close>

definition second_message :: message where
  "second_message =
     mk_message 32 (Inr (mk_parsed_mail ''Carol <carol@example.com>'' ''Estimate request''
                           ''How much for 100 flyers?''))"

definition stop_env :: imap_env where
  "stop_env =
     \<lparr>connect_error = None, lock_error = None, search_result = Inr [11, 32],
      fetched = [good_message, second_message]\<rparr>"

text \<open>The first message of the mailbox above, as the pass stores it.\<close>

definition alice_stored :: email where
  "alice_stored =
     \<lparr>email_id = ''1'', subject = ''Order 17'', from_hdr = ''Alice <alice@example.com>'',
      to_hdr = ''shop@example.com'', date = ''2024-01-15T10:00:00.000Z'',
      body = ''Two banners please'', attachments = [],
      parsed = Some \<lparr>ptype = Other, pconfidence = 1 / 2\<rparr>,
      status = Processed, classification = Some CUnsorted,
      senderEmail = Some ''alice@example.com''\<rparr>"

text \<open>
  Two submissions of a plain job, handled one right after the other, before the first
  job has resumed from the first \<open>await\<close> of \<open>processJob\<close>.
\<close>

definition job_req :: job_request where
  "job_req = \<lparr>req_type = ''email-processing'', req_settings = Some plain_settings\<rparr>"

definition empty_queue :: jq_state where
  "empty_queue = \<lparr>jobs = [], currentJob = None, jobIdCounter = 0\<rparr>"

definition pending_job :: "nat \<Rightarrow> job" where
  "pending_job n =
     \<lparr>job_id = ''email-processing-'' @ string_of_nat n, job_type = EmailProcessing,
      job_status = Pending, progress = 0, startTime = None, endTime = None,
      job_result = None, job_error = None, job_settings = Some plain_settings,
      currentOperation = None, totalEmails = None, processedEmails = None\<rparr>"

definition queue_1 :: jq_state where
  "queue_1 = snd (jobs_POST job_req empty_queue)"

definition queue_2 :: jq_state where
  "queue_2 = snd (jobs_POST job_req queue_1)"

text \<open>Both jobs resume, at times 1000 and 1001.\<close>

definition queue_3 :: jq_state where
  "queue_3 = processJob_resume (pending_job 2) 1001 (processJob_resume (pending_job 1) 1000 queue_2)"

text \<open>The second job completes and its \<open>finally\<close> block clears the slot.\<close>

definition queue_4 :: jq_state where
  "queue_4 =
     processJob_finally
       (processJob_complete (pending_job 2) \<lparr>res_processedCount = 0, res_errors = []\<rparr> 2000
          queue_3)"

section \<open>Supporting lemmas\<close>

lemmas str_eval = toLowerCase_def toLowerChar_def trim_def isWhiteSpace_def

lemmas num_eval = string_of_nat.simps digit_char_def


text \<open>
  The letters: lowering a character and writing it as a capital identify the same pairs
  of characters. Each of the 256 characters is checked.
\<close>

lemma lower_capital: "toLowerChar (capital c) = toLowerChar c"
proof (cases c)
  case (Char b0 b1 b2 b3 b4 b5 b6 b7)
  show ?thesis
    unfolding Char
    by (cases b0; cases b1; cases b2; cases b3; cases b4; cases b5; cases b6; cases b7;
        simp add: toLowerChar_def capital_def)
qed

lemma capital_lower: "capital (toLowerChar c) = capital c"
proof (cases c)
  case (Char b0 b1 b2 b3 b4 b5 b6 b7)
  show ?thesis
    unfolding Char
    by (cases b0; cases b1; cases b2; cases b3; cases b4; cases b5; cases b6; cases b7;
        simp add: toLowerChar_def capital_def)
qed

lemma same_letter: "capital c = capital d \<longleftrightarrow> toLowerChar c = toLowerChar d"
  by (metis lower_capital capital_lower)








text \<open>The hits: \<open>includes\<close> on the lowered strings against the occurrence in capitals.\<close>

lemma str_includes_sublist: "str_includes s p = sublist p s"
  by (induction s) (simp_all add: sublist_Cons_right)

lemma map_same_letter:
  "map capital xs = map capital ys \<longleftrightarrow> map toLowerChar xs = map toLowerChar ys"
proof (induction xs arbitrary: ys)
  case Nil
  then show ?case by simp
next
  case (Cons x xs)
  then show ?case by (cases ys) (simp_all add: same_letter)
qed

lemma sublist_map_iff:
  "sublist (map f k) (map f t) \<longleftrightarrow> (\<exists>ps w ss. t = ps @ w @ ss \<and> map f w = map f k)"
  unfolding sublist_def
  by (auto simp: map_eq_append_conv append_eq_map_conv) metis+

lemma occurs_eq:
  "occurs_ignoring_case k t = str_includes (toLowerCase t) (toLowerCase k)"
  unfolding occurs_ignoring_case_def str_includes_sublist toLowerCase_def sublist_map_iff
  by (simp add: map_same_letter)



lemma rush_occurs:
  "str_includes (toLowerCase s) ''rush'' = occurs_ignoring_case ''rush'' s"
  by (simp add: occurs_eq) (simp add: toLowerCase_def toLowerChar_def)


lemma parse_try_ok:
  assumes "parseAIParsingResponse_try jp a ty = Inr r"
  shows "\<exists>obj its bonus. r = parsed_result ty obj its bonus"
  using assms unfolding parseAIParsingResponse_try_def Let_def
  by (simp split: sum.splits) blast

lemma parse_ok:
  assumes "parseAIParsingResponse jp a ty = Inr r"
  shows "\<exists>obj its bonus. r = parsed_result ty obj its bonus"
proof -
  from assms have "parseAIParsingResponse_try jp a ty = Inr r"
    by (simp add: parseAIParsingResponse_def split: sum.splits)
  then show ?thesis by (rule parse_try_ok)
qed

lemma extraction_confidence_range:
  "1 / 10 \<le> extraction_confidence k n b \<and> extraction_confidence k n b \<le> 95 / 100"
  by (simp add: extraction_confidence_def Let_def)

lemma parse_ok_range:
  assumes "parseAIParsingResponse jp a ty = Inr r"
  shows "1 / 10 \<le> pe_confidence r \<and> pe_confidence r \<le> 95 / 100"
proof -
  obtain obj its bonus where "r = parsed_result ty obj its bonus"
    using parse_ok [OF assms] by blast
  then show ?thesis
    using extraction_confidence_range by (simp add: parsed_result_def)
qed

lemma extraction_confidence_floor: "3 / 10 \<le> extraction_confidence k n b"
proof -
  define x :: rat where "x = min (95 / 100) (3 / 10 + (of_nat k / of_nat n) * (6 / 10))"
  have "(0::rat) \<le> of_nat k / of_nat n"
    by simp
  then have "(3::rat) / 10 \<le> 3 / 10 + (of_nat k / of_nat n) * (6 / 10)"
    by simp
  then have x: "3 / 10 \<le> x"
    unfolding x_def by simp
  have "3 / 10 \<le> max (1 / 10) (min (95 / 100) (if b then x + 1 / 10 else x))"
    using x by (cases b) (simp_all add: le_max_iff_disj)
  then show ?thesis
    unfolding extraction_confidence_def Let_def x_def .
qed

lemma try_ok_parsed:
  assumes "parseEmailWithAI_try env e st sf = Inr r"
  shows "\<exists>resp pd. call_ai (http env (full_email env e sf)) st = Inr resp
           \<and> parseAIParsingResponse (json_parse env) resp (expectedType e) = Inr pd
           \<and> pe_confidence r = pe_confidence pd \<and> pe_data r = pe_data pd \<and> pe_type r = pe_type pd
           \<and> pe_reasoning r = pe_reasoning pd"
  using assms unfolding parseEmailWithAI_try_def Let_def
  by (auto split: sum.splits if_splits prod.splits)

text \<open>
  A strictly larger set of present fields is a strictly longer list of them, because the
  required fields of a type are distinct.
\<close>

lemma filter_psubset_length:
  assumes "distinct xs" and "set (filter P xs) \<subset> set (filter Q xs)"
  shows "length (filter P xs) < length (filter Q xs)"
proof -
  have lt: "card (set (filter P xs)) < card (set (filter Q xs))"
    using assms(2) by (rule psubset_card_mono [rotated]) (rule finite_set)
  have a: "card (set (filter P xs)) = length (filter P xs)"
    by (rule distinct_card) (simp add: assms(1))
  have b: "card (set (filter Q xs)) = length (filter Q xs)"
    by (rule distinct_card) (simp add: assms(1))
  show ?thesis
    using lt unfolding a b .
qed

text \<open>
  One more required field is worth 0.3 (of two) or 0.2 (of three), the description bonus
  only 0.1: the nine ways to have fewer fields are checked one by one.
\<close>

lemma confidence_steps:
  fixes ka kb n :: nat
  assumes "ka < kb" "kb \<le> n" "n = 2 \<or> n = 3"
  shows "extraction_confidence ka n ba \<le> extraction_confidence kb n bb"
proof -
  have "(n = 2 \<and> ka = 0 \<and> kb = 1) \<or> (n = 2 \<and> ka = 0 \<and> kb = 2) \<or> (n = 2 \<and> ka = 1 \<and> kb = 2)
     \<or> (n = 3 \<and> ka = 0 \<and> kb = 1) \<or> (n = 3 \<and> ka = 0 \<and> kb = 2) \<or> (n = 3 \<and> ka = 1 \<and> kb = 2)
     \<or> (n = 3 \<and> ka = 0 \<and> kb = 3) \<or> (n = 3 \<and> ka = 1 \<and> kb = 3) \<or> (n = 3 \<and> ka = 2 \<and> kb = 3)"
    using assms by presburger
  then show ?thesis
    unfolding extraction_confidence_def Let_def
    by (elim disjE conjE; cases ba; cases bb; simp)
qed

lemmas text_eval = reply_partial_text_def reply_full_text_def items_text_def dq_def
  ai_answer_def

lemma parse_A:
  "parseAIParsingResponse sample_parse reply_partial_text TOrder =
     Inr (parsed_result TOrder reply_partial
            [JObj [(''description'', JStr ''Business cards''), (''quantity'', JNum 500)]] True)"
  by (simp add: parseAIParsingResponse_def parseAIParsingResponse_try_def sample_parse_def
        json_match_def items_array_def first_item_described_def reply_partial_def str_eval
        text_eval)

lemma parse_B:
  "parseAIParsingResponse sample_parse reply_full_text TOrder =
     Inr (parsed_result TOrder reply_full
            [JObj [(''description'', JStr ''Business cards''), (''quantity'', JNum 500)]] True)"
  by (simp add: parseAIParsingResponse_def parseAIParsingResponse_try_def sample_parse_def
        json_match_def items_array_def first_item_described_def reply_full_def str_eval
        text_eval)

lemma present_A: "presentFields TOrder reply_partial = [''items'']"
  by (simp add: presentFields_def reply_partial_def)

lemma present_B: "presentFields TOrder reply_full = [''customerName'', ''items'']"
  by (simp add: presentFields_def reply_full_def)

section \<open>Rule Matcher: properties\<close>

text \<open>
  In the optimized mode the blacklist set is asked first, so a sender in both sets is
  skipped; a sender only in the whitelist set goes to the inbox; a sender in neither is
  unsorted.
\<close>

lemma optimized_routing:
  assumes "whitelistMap st = Some wl" and "blacklistMap st = Some bl"
  shows "checkWhitelistStatus gr e st =
           (if sender_lower e \<in> bl then Skip else if sender_lower e \<in> wl then Inbox else Unsorted)"
  using assms by (simp add: checkWhitelistStatus_def checkWhitelistStatus_try_def Let_def)

text \<open>
  In the fallback mode a scan that finds nothing means that no rule matches, and a scan
  over whitelist rules only can only answer \<open>inbox\<close>.
\<close>

lemma exact_scan_None:
  "exact_scan s rules = None \<longleftrightarrow> (\<forall>r \<in> set rules. toLowerCase (pattern r) \<noteq> s)"
  by (induction rules) auto

lemma contains_scan_None:
  "contains_scan s rules = None \<longleftrightarrow>
     (\<forall>r \<in> set rules. \<not> str_includes s (toLowerCase (pattern r))
                       \<and> \<not> str_includes (toLowerCase (pattern r)) s)"
  by (induction rules) auto

lemma exact_scan_whitelist_only:
  "\<forall>r \<in> set rules. toLowerCase (pattern r) = s \<longrightarrow> rtype r = Whitelist
   \<Longrightarrow> exact_scan s rules = Some x \<Longrightarrow> x = Inbox"
  by (induction rules) (auto split: if_splits)

lemma contains_scan_whitelist_only:
  "\<forall>r \<in> set rules.
      str_includes s (toLowerCase (pattern r)) \<or> str_includes (toLowerCase (pattern r)) s
      \<longrightarrow> rtype r = Whitelist
   \<Longrightarrow> contains_scan s rules = Some x \<Longrightarrow> x = Inbox"
  by (induction rules) (auto split: if_splits)

lemma str_includes_refl: "str_includes s s"
  by (cases s) simp_all

lemma fallback_no_match:
  assumes "whitelistMap st = None \<or> blacklistMap st = None"
    and "\<forall>r \<in> set rules. \<not> str_includes (sender_lower e) (toLowerCase (pattern r))
                           \<and> \<not> str_includes (toLowerCase (pattern r)) (sender_lower e)"
  shows "checkWhitelistStatus (Inr rules) e st = Unsorted"
proof -
  have "exact_scan (sender_lower e) rules = None"
    unfolding exact_scan_None using assms(2) str_includes_refl by metis
  moreover have "contains_scan (sender_lower e) rules = None"
    unfolding contains_scan_None using assms(2) by blast
  ultimately show ?thesis
    using assms(1)
    by (auto simp: checkWhitelistStatus_def checkWhitelistStatus_try_def Let_def
          split: option.splits)
qed

lemma fallback_whitelist_only:
  assumes "whitelistMap st = None \<or> blacklistMap st = None"
    and "\<forall>r \<in> set rules.
           str_includes (sender_lower e) (toLowerCase (pattern r))
           \<or> str_includes (toLowerCase (pattern r)) (sender_lower e) \<longrightarrow> rtype r = Whitelist"
    and "\<exists>r \<in> set rules.
           str_includes (sender_lower e) (toLowerCase (pattern r))
           \<or> str_includes (toLowerCase (pattern r)) (sender_lower e)"
  shows "checkWhitelistStatus (Inr rules) e st = Inbox"
proof -
  have ex: "\<forall>r \<in> set rules. toLowerCase (pattern r) = sender_lower e \<longrightarrow> rtype r = Whitelist"
    using assms(2) str_includes_refl by metis
  have some: "contains_scan (sender_lower e) rules \<noteq> None"
    unfolding contains_scan_None using assms(3) by blast
  show ?thesis
  proof (cases "exact_scan (sender_lower e) rules")
    case None
    obtain x where x: "contains_scan (sender_lower e) rules = Some x"
      using some by auto
    have "x = Inbox"
      using contains_scan_whitelist_only [OF assms(2) x] .
    with None x assms(1) show ?thesis
      by (auto simp: checkWhitelistStatus_def checkWhitelistStatus_try_def Let_def
            split: option.splits)
  next
    case (Some x)
    have "x = Inbox"
      using exact_scan_whitelist_only [OF ex Some] .
    with Some assms(1) show ?thesis
      by (auto simp: checkWhitelistStatus_def checkWhitelistStatus_try_def Let_def
            split: option.splits)
  qed
qed

text \<open>
  What the fallback scan computes: the first rule, in stored order, whose pattern equals
  the sender decides; when there is none, the first rule whose pattern contains the
  sender or is contained in it; when there is none either, the email is unsorted.
\<close>

lemma exact_scan_find:
  "exact_scan s rules =
     map_option route_of_rule (find (\<lambda>r. toLowerCase (pattern r) = s) rules)"
  by (induction rules) simp_all

lemma contains_scan_find:
  "contains_scan s rules =
     map_option route_of_rule
       (find (\<lambda>r. str_includes s (toLowerCase (pattern r))
                  \<or> str_includes (toLowerCase (pattern r)) s) rules)"
  by (induction rules) simp_all

lemma fallback_routing:
  assumes "whitelistMap st = None \<or> blacklistMap st = None"
  shows "checkWhitelistStatus (Inr rules) e st =
           (case find (\<lambda>r. toLowerCase (pattern r) = sender_lower e) rules of
              Some r \<Rightarrow> route_of_rule r
            | None \<Rightarrow>
                (case find (\<lambda>r. str_includes (sender_lower e) (toLowerCase (pattern r))
                                \<or> str_includes (toLowerCase (pattern r)) (sender_lower e)) rules of
                   Some r \<Rightarrow> route_of_rule r
                 | None \<Rightarrow> Unsorted))"
  using assms
  by (auto simp: checkWhitelistStatus_def checkWhitelistStatus_try_def Let_def exact_scan_find
        contains_scan_find split: option.splits)

text \<open>
  The two modes differ in what a match is. The optimized lookup asks whether the sender
  is the pattern of an active rule; the fallback scan also takes a pattern that contains
  the sender or is contained in it, and it does not read the \<open>active\<close> field of a rule.
\<close>

lemma optimized_lookup_is_exact:
  "checkWhitelistStatus (Inr partial_rules) client_email
     (optimizedSettings partial_rules plain_settings) = Unsorted"
  by (simp add: checkWhitelistStatus_def checkWhitelistStatus_try_def optimizedSettings_def
        partial_rules_def client_email_def plain_settings_def mk_email_def mk_rule_def
        sender_lower_def str_eval Let_def)

lemma fallback_reads_inactive_rules:
  "checkWhitelistStatus (Inr [(mk_rule Blacklist ''client@acme.com'')\<lparr>active := False\<rparr>])
     client_email plain_settings = Skip
   \<and> checkWhitelistStatus (Inr [(mk_rule Blacklist ''client@acme.com'')\<lparr>active := False\<rparr>])
       client_email
       (optimizedSettings [(mk_rule Blacklist ''client@acme.com'')\<lparr>active := False\<rparr>]
          plain_settings) = Unsorted"
  by (simp add: checkWhitelistStatus_def checkWhitelistStatus_try_def optimizedSettings_def
        client_email_def plain_settings_def mk_email_def mk_rule_def sender_lower_def
        str_eval Let_def)

text \<open>
  C2. A sender that matches a blacklist pattern and a whitelist pattern is to be routed
  \<open>skip\<close> in both modes. The optimized lookup does so. The fallback scan lets the first
  matching rule in stored order decide: with the whitelist rule stored before the
  blacklist rule for the same address \<open>client@acme.com\<close>, the sender is routed \<open>inbox\<close>,
  while the optimized lookup built from the same rules routes it \<open>skip\<close>; and with a
  whitelisted domain stored before a blacklisted mailbox name the scan also answers
  \<open>inbox\<close>.
\<close>

theorem fallback_scan_first_match_wins:
  "checkWhitelistStatus (Inr both_rules) client_email plain_settings = Inbox
   \<and> checkWhitelistStatus (Inr both_rules) client_email
        (optimizedSettings both_rules plain_settings) = Skip
   \<and> checkWhitelistStatus (Inr partial_rules) client_email plain_settings = Inbox"
  by (simp add: checkWhitelistStatus_def checkWhitelistStatus_try_def optimizedSettings_def
        both_rules_def partial_rules_def client_email_def plain_settings_def mk_email_def
        mk_rule_def sender_lower_def str_eval Let_def)

text \<open>
  C10. \<open>checkWhitelistStatus\<close> never rejects: whenever the evaluation of the rules throws,
  the result is \<open>unsorted\<close>. In particular, when the rule sets are not pre-loaded and the
  rule store throws, the email is neither skipped nor put into the inbox:
  \<open>processEmailClassification\<close> returns it, classified \<open>unsorted\<close>, to be stored.
\<close>

theorem checkWhitelistStatus_never_rejects:
  "(checkWhitelistStatus_try gr e st = Inl err \<longrightarrow> checkWhitelistStatus gr e st = Unsorted)
   \<and> ((whitelistMap st = None \<or> blacklistMap st = None)
        \<longrightarrow> checkWhitelistStatus_try (Inl err) e st = Inl err
            \<and> checkWhitelistStatus (Inl err) e st = Unsorted
            \<and> map_option classification (processEmailClassification (Inl err) ai e st)
                = Some (Some CUnsorted))"
  by (auto simp: processEmailClassification_def checkWhitelistStatus_def
        checkWhitelistStatus_try_def Let_def split: option.splits)

theorem checkWhitelistStatus_never_rejects_witness:
  "whitelistMap plain_settings = None
   \<and> checkWhitelistStatus_try (Inl (Error ''ENOENT'')) client_email plain_settings
       = Inl (Error ''ENOENT'')
   \<and> checkWhitelistStatus (Inl (Error ''ENOENT'')) client_email plain_settings = Unsorted
   \<and> map_option classification
         (processEmailClassification (Inl (Error ''ENOENT'')) failed_ai client_email
            plain_settings)
       = Some (Some CUnsorted)"
  using checkWhitelistStatus_never_rejects
          [of "Inl (Error ''ENOENT'')" client_email plain_settings "Error ''ENOENT''" failed_ai]
  by (simp add: plain_settings_def)

section \<open>Classifier: properties\<close>





section \<open>Structured Extractor: properties\<close>

text \<open>
  C3. For every email of the \<open>Email\<close> type (subject, sender and body are strings), every
  settings value and every behaviour of the environment (no
  credentials, an unreachable endpoint, a reply that does not parse, files that cannot be
  written), \<open>parseEmailWithAI\<close> resolves: it returns what the \<open>try\<close> block returned, or,
  when that threw, the fallback record. The confidence of the result lies in
  \<open>[0.1, 0.95]\<close>.
\<close>

theorem parseEmailWithAI_always_resolves:
  "((\<exists>r. parseEmailWithAI_try env e st sf = Inr r \<and> parseEmailWithAI env e st sf = r)
      \<or> (\<exists>err. parseEmailWithAI_try env e st sf = Inl err
                \<and> parseEmailWithAI env e st sf = fallback_result e err))
   \<and> 1 / 10 \<le> pe_confidence (parseEmailWithAI env e st sf)
   \<and> pe_confidence (parseEmailWithAI env e st sf) \<le> 95 / 100"
proof (cases "parseEmailWithAI_try env e st sf")
  case (Inl err)
  then show ?thesis
    by (simp add: parseEmailWithAI_def fallback_result_def Let_def)
next
  case (Inr r)
  then obtain resp pd where
    pd: "parseAIParsingResponse (json_parse env) resp (expectedType e) = Inr pd"
    and c: "pe_confidence r = pe_confidence pd"
    using try_ok_parsed by blast
  from parse_ok_range [OF pd] c Inr show ?thesis
    by (simp add: parseEmailWithAI_def)
qed

text \<open>
  C8. Two replies of the same target type are parsed successfully. If the required
  fields present in the second are a strict superset of those present in the first, the
  confidence of the second is at least that of the first.
\<close>

theorem confidence_monotone:
  assumes "parseAIParsingResponse jp a ty = Inr ra"
    and "parseAIParsingResponse jp b ty = Inr rb"
    and "pe_data ra = AIData ja" and "pe_data rb = AIData jb"
    and "set (presentFields ty ja) \<subset> set (presentFields ty jb)"
  shows "pe_confidence ra \<le> pe_confidence rb"
proof -
  obtain oa ia ba where ra: "ra = parsed_result ty oa ia ba"
    using parse_ok [OF assms(1)] by blast
  obtain ob ib bb where rb: "rb = parsed_result ty ob ib bb"
    using parse_ok [OF assms(2)] by blast
  have oa: "oa = ja" using ra assms(3) by (simp add: parsed_result_def)
  have ob: "ob = jb" using rb assms(4) by (simp add: parsed_result_def)
  have d: "distinct (requiredFields ty)"
    by (cases ty) simp_all
  have lt: "length (presentFields ty ja) < length (presentFields ty jb)"
    using assms(5) unfolding presentFields_def by (rule filter_psubset_length [OF d])
  have le: "length (presentFields ty jb) \<le> length (requiredFields ty)"
    unfolding presentFields_def by simp
  have n: "length (requiredFields ty) = 2 \<or> length (requiredFields ty) = 3"
    by (cases ty) simp_all
  show ?thesis
    unfolding ra rb oa ob using confidence_steps [OF lt le n]
    by (simp add: parsed_result_def)
qed

theorem confidence_monotone_witness:
  "set (presentFields TOrder reply_partial) \<subset> set (presentFields TOrder reply_full)
   \<and> pe_confidence (parsed_result TOrder reply_partial
         [JObj [(''description'', JStr ''Business cards''), (''quantity'', JNum 500)]] True) = 7 / 10
   \<and> pe_confidence (parsed_result TOrder reply_partial
         [JObj [(''description'', JStr ''Business cards''), (''quantity'', JNum 500)]] True)
       \<le> pe_confidence (parsed_result TOrder reply_full
         [JObj [(''description'', JStr ''Business cards''), (''quantity'', JNum 500)]] True)"
proof -
  have sub: "set (presentFields TOrder reply_partial) \<subset> set (presentFields TOrder reply_full)"
    by (auto simp: present_A present_B)
  have da: "pe_data (parsed_result TOrder reply_partial
         [JObj [(''description'', JStr ''Business cards''), (''quantity'', JNum 500)]] True)
       = AIData reply_partial"
    by (simp add: parsed_result_def)
  have db: "pe_data (parsed_result TOrder reply_full
         [JObj [(''description'', JStr ''Business cards''), (''quantity'', JNum 500)]] True)
       = AIData reply_full"
    by (simp add: parsed_result_def)
  have v: "pe_confidence (parsed_result TOrder reply_partial
         [JObj [(''description'', JStr ''Business cards''), (''quantity'', JNum 500)]] True) = 7 / 10"
    by (simp add: parsed_result_def present_A extraction_confidence_def)
  from confidence_monotone [OF parse_A parse_B da db sub] sub v show ?thesis
    by simp
qed

subsection \<open>Failure handling\<close>

lemma expected_order_email: "expectedType order_email = TOrder"
  by (simp add: expectedType_def isWeTransferEmail_def order_email_def mk_email_def
        extractEmailAddress_def str_eval Let_def)

lemma expected_crushed_email: "expectedType crushed_email = TOrder"
  by (simp add: expectedType_def isWeTransferEmail_def crushed_email_def order_email_def
        mk_email_def extractEmailAddress_def str_eval Let_def)

lemma full_email_refetch_fails: "refetch env = Inl rerr \<Longrightarrow> full_email env e sf = e"
  by (simp add: full_email_def)

lemma call_archive_env: "call_ai (http archive_fail_env fe) google_settings = Inr ai_answer"
  by (simp add: call_ai_def callGoogleAI_def archive_fail_env_def google_settings_def
        plain_settings_def text_eval)

lemma call_parsed_write_env:
  "call_ai (http parsed_write_fail_env fe) google_settings = Inr ai_answer"
  by (simp add: call_ai_def callGoogleAI_def parsed_write_fail_env_def archive_fail_env_def
        google_settings_def plain_settings_def text_eval)

lemma call_garbled_env:
  "call_ai (http garbled_env fe) google_settings = Inr ''I could not read this email.''"
  by (simp add: call_ai_def callGoogleAI_def garbled_env_def archive_fail_env_def
        google_settings_def plain_settings_def)

lemma call_unreachable_env:
  "call_ai (http unreachable_env fe) google_settings = Inl (Error ''fetch failed'')"
  by (simp add: call_ai_def callGoogleAI_def unreachable_env_def archive_fail_env_def
        google_settings_def plain_settings_def)

lemma parse_answer: "parseAIParsingResponse sample_parse ai_answer TOrder = Inr parsed_full"
  by (simp add: parseAIParsingResponse_def parseAIParsingResponse_try_def sample_parse_def
        json_match_def items_array_def first_item_described_def reply_full_def str_eval
        text_eval parsed_full_def)

lemma parse_garbled:
  "parseAIParsingResponse sample_parse ''I could not read this email.'' TOrder =
     Inl (Error ''Failed to parse AI response: Unexpected token in JSON'')"
  by (simp add: parseAIParsingResponse_def parseAIParsingResponse_try_def sample_parse_def
        json_match_def str_eval text_eval)

lemma sample_envs_parse:
  "json_parse archive_fail_env = sample_parse"
  "json_parse parsed_write_fail_env = sample_parse"
  "json_parse garbled_env = sample_parse"
  by (simp_all add: archive_fail_env_def parsed_write_fail_env_def garbled_env_def)

lemma confidence_full: "pe_confidence parsed_full = 95 / 100"
  by (simp add: parsed_full_def parsed_result_def present_B extraction_confidence_def)

lemma data_full: "pe_data parsed_full = AIData reply_full"
  by (simp add: parsed_full_def parsed_result_def)

lemma try_call_fails:
  "call_ai (http env (full_email env e sf)) st = Inl err
   \<Longrightarrow> parseEmailWithAI_try env e st sf = Inl err"
  by (simp add: parseEmailWithAI_try_def Let_def)

lemma try_parse_fails:
  "call_ai (http env (full_email env e sf)) st = Inr resp
   \<Longrightarrow> parseAIParsingResponse (json_parse env) resp (expectedType e) = Inl err
   \<Longrightarrow> parseEmailWithAI_try env e st sf = Inl err"
  by (simp add: parseEmailWithAI_try_def Let_def)

text \<open>
  When the AI call and the parsing succeed, the result is the parsed data together with
  what the file-saving block has assigned.
\<close>

lemma try_parsed:
  assumes "call_ai (http env (full_email env e sf)) st = Inr resp"
    and "parseAIParsingResponse (json_parse env) resp (expectedType e) = Inr pd"
  shows "parseEmailWithAI env e st sf =
           pd\<lparr>attachmentsSaved := (if sf then fst (save_files env (full_email env e sf)) else []),
              emailFiles := (if sf then snd (save_files env (full_email env e sf)) else None)\<rparr>"
  using assms
  by (simp add: parseEmailWithAI_def parseEmailWithAI_try_def Let_def split: prod.splits)

lemma save_files_email_fails:
  "save_email env fe = Inl ferr \<Longrightarrow> save_files env fe = ([], None)"
  by (simp add: save_files_def)

lemma save_files_parsed_fails:
  "save_email env fe = Inr ef \<Longrightarrow> save_parsed env (folderPath ef) = Inl ferr
   \<Longrightarrow> save_files env fe = (attachmentFiles ef, Some ef)"
  by (simp add: save_files_def)

lemma crushed_subject:
  "\<not> str_includes (subject crushed_email) ''rush''
   \<and> str_includes (toLowerCase (subject crushed_email)) ''rush''"
  by (simp add: crushed_email_def str_eval)

text \<open>
  C4, as stated, includes the archiving of files among the failures that lead to the
  fallback record. It does not: the AI answers with a full order, the archive folder
  cannot be written, and the result carries the parsed data at confidence 0.95. As
  stated, the \<open>rushOrder\<close> flag of the fallback record is set iff the subject contains
  the literal word \<open>rush\<close>. The subject \<open>CRUSHED VELVET BANNER\<close> does not contain it, and
  the fallback record of that email, returned when the AI endpoint cannot be reached,
  has the flag set.
\<close>

theorem archive_failure_keeps_parsed_data:
  "save_email archive_fail_env (full_email archive_fail_env order_email True)
     = Inl (Error ''EACCES: permission denied'')
   \<and> pe_confidence (parseEmailWithAI archive_fail_env order_email google_settings True) = 95 / 100
   \<and> pe_data (parseEmailWithAI archive_fail_env order_email google_settings True) = AIData reply_full
   \<and> \<not> str_includes (subject crushed_email) ''rush''
   \<and> pe_data (parseEmailWithAI unreachable_env crushed_email google_settings True)
       = FallbackOrder (createFallbackOrderData crushed_email)
   \<and> od_rushOrder (createFallbackOrderData crushed_email) = Some True"
proof -
  have s: "save_email archive_fail_env fe = Inl (Error ''EACCES: permission denied'')" for fe
    by (simp add: archive_fail_env_def)
  have p: "parseAIParsingResponse (json_parse archive_fail_env) ai_answer
             (expectedType order_email) = Inr parsed_full"
    by (simp add: sample_envs_parse expected_order_email parse_answer)
  have a: "parseEmailWithAI archive_fail_env order_email google_settings True
             = parsed_full\<lparr>attachmentsSaved := [], emailFiles := None\<rparr>"
    using try_parsed [OF call_archive_env p] by (simp add: save_files_email_fails [OF s])
  have u: "parseEmailWithAI unreachable_env crushed_email google_settings True
             = fallback_result crushed_email (Error ''fetch failed'')"
    using try_call_fails [OF call_unreachable_env] by (simp add: parseEmailWithAI_def)
  show ?thesis
    using crushed_subject
    by (simp add: s a u confidence_full data_full fallback_result_def expected_crushed_email
          createFallbackOrderData_def)
qed

text \<open>
  C4, amended. When the AI call fails, or the reply does not parse, \<open>parseEmailWithAI\<close>
  does not propagate the error and returns the fallback record: the type resolved in
  step 1; one placeholder item made from the subject; for an order a \<open>rushOrder\<close> flag
  that is set iff \<open>rush\<close> occurs in the subject without regard to the case of letters
  (as a substring, not as a word), and the first 500 characters of the body as
  \<open>specialInstructions\<close>; for an estimate the first 500 characters of the body as
  \<open>notes\<close>; confidence 0.1; the reasoning \<open>AI parsing failed:\<close> followed by the message
  of the error; no saved attachments and no files. When the re-fetch fails, the
  extraction goes on with the original email. When the AI call and the parsing succeed,
  no failure of the archiving leads to the fallback record: the result has the type,
  data, confidence (at least 0.3) and reasoning of the parsed reply; when the email
  archive cannot be written it has no saved attachments and no files, and when only the
  parsed-data file cannot be written it has the attachments and the files of the email
  archive.
\<close>

theorem extraction_failure_handling:
  "(call_ai (http env (full_email env e sf)) st = Inl err
      \<or> (call_ai (http env (full_email env e sf)) st = Inr resp
          \<and> parseAIParsingResponse (json_parse env) resp (expectedType e) = Inl err)
    \<longrightarrow> parseEmailWithAI env e st sf = fallback_result e err
        \<and> pe_type (fallback_result e err) = expectedType e
        \<and> pe_data (fallback_result e err) =
            (case expectedType e of
               TOrder \<Rightarrow> FallbackOrder (createFallbackOrderData e)
             | TEstimate \<Rightarrow> FallbackEstimate (createFallbackEstimateData e))
        \<and> od_items (createFallbackOrderData e) =
            [\<lparr>description = ''Order from email: '' @ subject e, quantity = 1,
              unitPrice = None, totalPrice = None, specifications = None\<rparr>]
        \<and> od_rushOrder (createFallbackOrderData e) =
            Some (occurs_ignoring_case ''rush'' (subject e))
        \<and> od_specialInstructions (createFallbackOrderData e) = Some (take 500 (body e))
        \<and> ed_items (createFallbackEstimateData e) =
            [\<lparr>description = ''Estimate request from email: '' @ subject e, quantity = 1,
              unitPrice = None, totalPrice = None, specifications = None\<rparr>]
        \<and> ed_notes (createFallbackEstimateData e) = Some (take 500 (body e))
        \<and> pe_confidence (fallback_result e err) = 1 / 10
        \<and> pe_reasoning (fallback_result e err) = ''AI parsing failed: '' @ error_message err
        \<and> attachmentsSaved (fallback_result e err) = []
        \<and> emailFiles (fallback_result e err) = None)
   \<and> (refetch env = Inl rerr \<longrightarrow> full_email env e sf = e)
   \<and> (call_ai (http env (full_email env e sf)) st = Inr resp
        \<and> parseAIParsingResponse (json_parse env) resp (expectedType e) = Inr pd
      \<longrightarrow> (\<exists>obj. pe_data pd = AIData obj)
          \<and> 3 / 10 \<le> pe_confidence pd
          \<and> pe_type (parseEmailWithAI env e st sf) = pe_type pd
          \<and> pe_data (parseEmailWithAI env e st sf) = pe_data pd
          \<and> pe_confidence (parseEmailWithAI env e st sf) = pe_confidence pd
          \<and> pe_reasoning (parseEmailWithAI env e st sf) = pe_reasoning pd
          \<and> (save_email env (full_email env e sf) = Inl ferr
               \<longrightarrow> parseEmailWithAI env e st sf
                     = pd\<lparr>attachmentsSaved := [], emailFiles := None\<rparr>)
          \<and> (sf \<and> save_email env (full_email env e sf) = Inr ef
                \<and> save_parsed env (folderPath ef) = Inl ferr
               \<longrightarrow> parseEmailWithAI env e st sf
                     = pd\<lparr>attachmentsSaved := attachmentFiles ef, emailFiles := Some ef\<rparr>))"
proof (intro conjI impI)
  assume "call_ai (http env (full_email env e sf)) st = Inl err
      \<or> (call_ai (http env (full_email env e sf)) st = Inr resp
          \<and> parseAIParsingResponse (json_parse env) resp (expectedType e) = Inl err)"
  then have "parseEmailWithAI_try env e st sf = Inl err"
    using try_call_fails try_parse_fails by blast
  then show "parseEmailWithAI env e st sf = fallback_result e err"
    by (simp add: parseEmailWithAI_def)
next
  show "od_rushOrder (createFallbackOrderData e) = Some (occurs_ignoring_case ''rush'' (subject e))"
    by (simp add: createFallbackOrderData_def rush_occurs)
next
  assume "refetch env = Inl rerr"
  then show "full_email env e sf = e"
    by (rule full_email_refetch_fails)
next
  assume a: "call_ai (http env (full_email env e sf)) st = Inr resp
        \<and> parseAIParsingResponse (json_parse env) resp (expectedType e) = Inr pd"
  obtain obj its bonus where pd: "pd = parsed_result (expectedType e) obj its bonus"
    using parse_ok a by blast
  show "\<exists>obj. pe_data pd = AIData obj"
    by (simp add: pd parsed_result_def)
  show "3 / 10 \<le> pe_confidence pd"
    using extraction_confidence_floor by (simp add: pd parsed_result_def)
  note r = try_parsed [OF a [THEN conjunct1] a [THEN conjunct2]]
  show "pe_type (parseEmailWithAI env e st sf) = pe_type pd"
    by (simp add: r)
  show "pe_data (parseEmailWithAI env e st sf) = pe_data pd"
    by (simp add: r)
  show "pe_confidence (parseEmailWithAI env e st sf) = pe_confidence pd"
    by (simp add: r)
  show "pe_reasoning (parseEmailWithAI env e st sf) = pe_reasoning pd"
    by (simp add: r)
next
  assume a: "call_ai (http env (full_email env e sf)) st = Inr resp
        \<and> parseAIParsingResponse (json_parse env) resp (expectedType e) = Inr pd"
    and f: "save_email env (full_email env e sf) = Inl ferr"
  note r = try_parsed [OF a [THEN conjunct1] a [THEN conjunct2]]
  have sv: "save_files env (full_email env e sf) = ([], None)"
    by (rule save_files_email_fails [OF f])
  show "parseEmailWithAI env e st sf = pd\<lparr>attachmentsSaved := [], emailFiles := None\<rparr>"
    using r sv by (cases sf) simp_all
next
  assume a: "call_ai (http env (full_email env e sf)) st = Inr resp
        \<and> parseAIParsingResponse (json_parse env) resp (expectedType e) = Inr pd"
    and f: "sf \<and> save_email env (full_email env e sf) = Inr ef
                \<and> save_parsed env (folderPath ef) = Inl ferr"
  note r = try_parsed [OF a [THEN conjunct1] a [THEN conjunct2]]
  from f have sf: sf
    and f1: "save_email env (full_email env e sf) = Inr ef"
    and f2: "save_parsed env (folderPath ef) = Inl ferr"
    by blast+
  have sv: "save_files env (full_email env e sf) = (attachmentFiles ef, Some ef)"
    by (rule save_files_parsed_fails [OF f1 f2])
  show "parseEmailWithAI env e st sf
          = pd\<lparr>attachmentsSaved := attachmentFiles ef, emailFiles := Some ef\<rparr>"
    using sf r sv by simp
qed (simp_all add: fallback_result_def createFallbackOrderData_def createFallbackEstimateData_def
       substring0_def Let_def)

theorem extraction_failure_handling_witness:
  "call_ai (http unreachable_env (full_email unreachable_env order_email True)) google_settings
     = Inl (Error ''fetch failed'')
   \<and> parseEmailWithAI unreachable_env order_email google_settings True
       = fallback_result order_email (Error ''fetch failed'')
   \<and> pe_type (fallback_result order_email (Error ''fetch failed'')) = TOrder
   \<and> od_rushOrder (createFallbackOrderData order_email) = Some True
   \<and> pe_reasoning (fallback_result order_email (Error ''fetch failed''))
       = ''AI parsing failed: fetch failed''
   \<and> parseEmailWithAI garbled_env order_email google_settings True
       = fallback_result order_email
           (Error ''Failed to parse AI response: Unexpected token in JSON'')
   \<and> refetch archive_fail_env = Inl (Error ''Email not found in IMAP server'')
   \<and> full_email archive_fail_env order_email True = order_email
   \<and> save_email archive_fail_env order_email = Inl (Error ''EACCES: permission denied'')
   \<and> parseEmailWithAI archive_fail_env order_email google_settings True
       = parsed_full\<lparr>attachmentsSaved := [], emailFiles := None\<rparr>
   \<and> save_email parsed_write_fail_env order_email = Inr order_folder
   \<and> save_parsed parsed_write_fail_env (folderPath order_folder)
       = Inl (Error ''ENOSPC: no space left on device'')
   \<and> parseEmailWithAI parsed_write_fail_env order_email google_settings True
       = parsed_full\<lparr>attachmentsSaved := [], emailFiles := Some order_folder\<rparr>
   \<and> pe_confidence parsed_full = 95 / 100"
proof -
  have rf: "refetch archive_fail_env = Inl (Error ''Email not found in IMAP server'')"
      "refetch parsed_write_fail_env = Inl (Error ''Email not found in IMAP server'')"
    by (simp_all add: archive_fail_env_def parsed_write_fail_env_def)
  have s1: "save_email archive_fail_env fe = Inl (Error ''EACCES: permission denied'')" for fe
    by (simp add: archive_fail_env_def)
  have s2: "save_email parsed_write_fail_env fe = Inr order_folder"
      "save_parsed parsed_write_fail_env d = Inl (Error ''ENOSPC: no space left on device'')"
      "attachmentFiles order_folder = []" for fe d
    by (simp_all add: parsed_write_fail_env_def archive_fail_env_def order_folder_def)
  have rush: "occurs_ignoring_case ''rush'' (subject order_email)"
    unfolding rush_occurs [symmetric] by (simp add: order_email_def mk_email_def str_eval)
  have p: "parseAIParsingResponse sample_parse ai_answer (expectedType order_email)
             = Inr parsed_full"
    by (simp add: expected_order_email parse_answer)
  have g: "parseAIParsingResponse sample_parse ''I could not read this email.''
             (expectedType order_email)
             = Inl (Error ''Failed to parse AI response: Unexpected token in JSON'')"
    by (simp add: expected_order_email parse_garbled)
  from extraction_failure_handling
         [of unreachable_env order_email True google_settings "Error ''fetch failed''"]
       extraction_failure_handling
         [of garbled_env order_email True google_settings
             "Error ''Failed to parse AI response: Unexpected token in JSON''"
             "''I could not read this email.''"]
       extraction_failure_handling
         [of archive_fail_env order_email True google_settings _ ai_answer
             "Error ''Email not found in IMAP server''" parsed_full
             "Error ''EACCES: permission denied''"]
       extraction_failure_handling
         [of parsed_write_fail_env order_email True google_settings _ ai_answer
             "Error ''Email not found in IMAP server''" parsed_full
             "Error ''ENOSPC: no space left on device''" order_folder]
       call_unreachable_env call_garbled_env call_archive_env call_parsed_write_env
       p g rf s1 s2 rush
  show ?thesis
    by (simp add: expected_order_email sample_envs_parse confidence_full)
qed

section \<open>Ingestion Pipeline: properties\<close>

lemma classification_None:
  "processEmailClassification gr ai e st = None \<longleftrightarrow> checkWhitelistStatus gr e st = Skip"
  by (simp add: processEmailClassification_def Let_def split: route.splits)

lemma classification_Some:
  "processEmailClassification gr ai e st = Some ce
   \<Longrightarrow> \<exists>c p. ce = e\<lparr>classification := c, parsed := p, status := Processed\<rparr>"
  by (auto simp: processEmailClassification_def Let_def split: route.splits)

lemma isWeTransferEmail_update:
  "isWeTransferEmail (e\<lparr>email_id := i\<rparr>) = isWeTransferEmail e"
  "isWeTransferEmail (e\<lparr>classification := c\<rparr>) = isWeTransferEmail e"
  "isWeTransferEmail (e\<lparr>parsed := p\<rparr>) = isWeTransferEmail e"
  "isWeTransferEmail (e\<lparr>status := s\<rparr>) = isWeTransferEmail e"
  by (simp_all add: isWeTransferEmail_def)

lemma checkWhitelistStatus_update:
  "checkWhitelistStatus gr (e\<lparr>email_id := i\<rparr>) st = checkWhitelistStatus gr e st"
  "checkWhitelistStatus gr (e\<lparr>classification := c\<rparr>) st = checkWhitelistStatus gr e st"
  "checkWhitelistStatus gr (e\<lparr>parsed := p\<rparr>) st = checkWhitelistStatus gr e st"
  "checkWhitelistStatus gr (e\<lparr>status := s\<rparr>) st = checkWhitelistStatus gr e st"
  by (simp_all add: checkWhitelistStatus_def checkWhitelistStatus_try_def sender_lower_def)

lemma addEmail_emails:
  "emails (snd (addEmail ce sv)) = emails sv @ [ce\<lparr>email_id := string_of_nat (idCounter sv + 1)\<rparr>]"
  by (simp add: addEmail_def Let_def)

lemma process_message_count:
  "messageCount (process_message gr st m ps) = messageCount ps + 1"
  by (simp add: process_message_def Let_def split: sum.splits option.splits)

lemma process_message_errors:
  "errors (process_message gr st m ps) = errors ps @ error_lines (messageCount ps) [m]"
  by (simp add: process_message_def Let_def split: sum.splits option.splits)

lemma process_message_processed:
  "processedCount (process_message gr st m ps) =
     processedCount ps + (if is_failed m \<or> is_skipped gr st m then 0 else 1)"
proof (cases "parse_result m")
  case (Inl err)
  then show ?thesis
    by (simp add: process_message_def Let_def is_failed_def)
next
  case (Inr p)
  show ?thesis
  proof (cases "isWeTransferEmail (build_email st m p)")
    case True
    with Inr show ?thesis
      by (simp add: process_message_def Let_def is_failed_def is_skipped_def)
  next
    case False
    show ?thesis
    proof (cases "processEmailClassification gr (ai_result m) (build_email st m p) st")
      case None
      then have "checkWhitelistStatus gr (build_email st m p) st = Skip"
        by (simp add: classification_None)
      with None Inr False show ?thesis
        by (simp add: process_message_def Let_def is_failed_def is_skipped_def)
    next
      case (Some ce)
      then have "checkWhitelistStatus gr (build_email st m p) st \<noteq> Skip"
        using classification_None [of gr "ai_result m" "build_email st m p" st] by simp
      with Some Inr False show ?thesis
        by (simp add: process_message_def Let_def is_failed_def is_skipped_def)
    qed
  qed
qed

lemma process_message_emails:
  "\<exists>added. emails (server (process_message gr st m ps)) = emails (server ps) @ added
           \<and> (\<forall>e \<in> set added. may_store gr st e)"
proof (cases "parse_result m")
  case (Inl err)
  then show ?thesis
    by (simp add: process_message_def Let_def)
next
  case (Inr p)
  show ?thesis
  proof (cases "isWeTransferEmail (build_email st m p)")
    case True
    have "may_store gr st ((build_email st m p)\<lparr>email_id := [], classification := Some CInbox,
                            parsed := Some \<lparr>ptype = Order, pconfidence = 9 / 10\<rparr>,
                            email_id := x\<rparr>)" for x
      using True by (simp add: may_store_def isWeTransferEmail_update)
    with Inr True show ?thesis
      by (simp add: process_message_def Let_def addEmail_emails)
  next
    case False
    show ?thesis
    proof (cases "processEmailClassification gr (ai_result m) (build_email st m p) st")
      case None
      with Inr False show ?thesis
        by (simp add: process_message_def Let_def)
    next
      case (Some ce)
      then have ns: "checkWhitelistStatus gr (build_email st m p) st \<noteq> Skip"
        using classification_None [of gr "ai_result m" "build_email st m p" st] by simp
      obtain c q where "ce = (build_email st m p)\<lparr>classification := c, parsed := q,
                                                   status := Processed\<rparr>"
        using classification_Some [OF Some] by blast
      then have "may_store gr st (ce\<lparr>email_id := x\<rparr>)" for x
        using ns by (simp add: may_store_def checkWhitelistStatus_update)
      with Some Inr False show ?thesis
        by (simp add: process_message_def Let_def addEmail_emails)
    qed
  qed
qed

lemma process_messages_count:
  "messageCount (process_messages gr st ms ps) = messageCount ps + length ms"
  by (induction ms arbitrary: ps) (simp_all add: process_message_count)

lemma process_messages_errors:
  "errors (process_messages gr st ms ps) = errors ps @ error_lines (messageCount ps) ms"
  by (induction ms arbitrary: ps) (simp_all add: process_message_errors process_message_count)

lemma process_messages_processed:
  "processedCount (process_messages gr st ms ps) =
     processedCount ps + length (filter (\<lambda>m. \<not> is_failed m \<and> \<not> is_skipped gr st m) ms)"
  by (induction ms arbitrary: ps) (simp_all add: process_message_processed)

lemma process_messages_emails:
  "\<exists>added. emails (server (process_messages gr st ms ps)) = emails (server ps) @ added
           \<and> (\<forall>e \<in> set added. may_store gr st e)"
proof (induction ms arbitrary: ps)
  case Nil
  then show ?case by simp
next
  case (Cons m ms)
  obtain a1 where a1: "emails (server (process_message gr st m ps)) = emails (server ps) @ a1"
      "\<forall>e \<in> set a1. may_store gr st e"
    using process_message_emails by blast
  obtain a2 where a2: "emails (server (process_messages gr st ms (process_message gr st m ps)))
        = emails (server (process_message gr st m ps)) @ a2"
      "\<forall>e \<in> set a2. may_store gr st e"
    using Cons.IH by blast
  show ?case
    using a1 a2 by (intro exI [of _ "a1 @ a2"]) auto
qed


lemma processEmails_pass:
  assumes "connect_error env = None" "lock_error env = None"
    "search_result env = Inr uids" "uids \<noteq> []"
  shows "processEmails env gr st sv =
           (Inr \<lparr>res_processedCount =
                   processedCount (process_messages gr st (fetched env)
                     \<lparr>server = sv, processedCount = 0, errors = [], messageCount = 0\<rparr>),
                 res_errors =
                   errors (process_messages gr st (fetched env)
                     \<lparr>server = sv, processedCount = 0, errors = [], messageCount = 0\<rparr>)\<rparr>,
            server (process_messages gr st (fetched env)
                     \<lparr>server = sv, processedCount = 0, errors = [], messageCount = 0\<rparr>))"
  using assms by (simp add: processEmails_def Let_def)

lemma processEmails_emails:
  "\<exists>added. emails (snd (processEmails env gr st sv)) = emails sv @ added
           \<and> (\<forall>e \<in> set added. may_store gr st e)"
proof -
  have "snd (processEmails env gr st sv) = sv
        \<or> snd (processEmails env gr st sv) =
            server (process_messages gr st (fetched env)
                     \<lparr>server = sv, processedCount = 0, errors = [], messageCount = 0\<rparr>)"
    by (simp add: processEmails_def Let_def split: option.splits sum.splits)
  then show ?thesis
  proof
    assume "snd (processEmails env gr st sv) = sv"
    then show ?thesis by simp
  next
    assume a: "snd (processEmails env gr st sv) =
            server (process_messages gr st (fetched env)
                     \<lparr>server = sv, processedCount = 0, errors = [], messageCount = 0\<rparr>)"
    show ?thesis
      unfolding a
      using process_messages_emails
              [of gr st "fetched env" "\<lparr>server = sv, processedCount = 0, errors = [], messageCount = 0\<rparr>"]
      by simp
  qed
qed

lemma error_lines_all_ok:
  "\<forall>m \<in> set ms. \<not> is_failed m \<Longrightarrow> error_lines n ms = []"
  by (induction ms arbitrary: n) (auto simp: is_failed_def split: sum.splits)

lemma error_lines_one:
  assumes "k < length ms" and "parse_result (ms ! k) = Inl err"
    and "\<forall>i < length ms. i \<noteq> k \<longrightarrow> \<not> is_failed (ms ! i)"
  shows "error_lines n ms = [error_line (n + k + 1) (uid (ms ! k)) err]"
  using assms
proof (induction ms arbitrary: k n)
  case Nil
  then show ?case by simp
next
  case (Cons m ms)
  show ?case
  proof (cases k)
    case 0
    have "\<forall>x \<in> set ms. \<not> is_failed x"
    proof
      fix x assume "x \<in> set ms"
      then obtain i where "i < length ms" "ms ! i = x"
        by (auto simp: in_set_conv_nth)
      then show "\<not> is_failed x"
        using Cons.prems(3) [rule_format, of "Suc i"] 0 by auto
    qed
    then have "error_lines (n + 1) ms = []"
      by (rule error_lines_all_ok)
    with 0 Cons.prems(2) show ?thesis by simp
  next
    case (Suc j)
    have ok: "\<not> is_failed m"
      using Cons.prems(3) [rule_format, of 0] Suc by simp
    have rest: "\<forall>i < length ms. i \<noteq> j \<longrightarrow> \<not> is_failed (ms ! i)"
    proof (intro allI impI)
      fix i assume "i < length ms" "i \<noteq> j"
      then show "\<not> is_failed (ms ! i)"
        using Cons.prems(3) [rule_format, of "Suc i"] Suc by simp
    qed
    have "error_lines (n + 1) ms = [error_line (n + 1 + j + 1) (uid (ms ! j)) err]"
      using Cons.IH [of j "n + 1"] Cons.prems(1,2) Suc rest by simp
    with ok Suc show ?thesis
      by (simp add: is_failed_def split: sum.splits)
  qed
qed

lemma one_failed:
  assumes "k < length ms" and "is_failed (ms ! k)"
    and "\<forall>i < length ms. i \<noteq> k \<longrightarrow> \<not> is_failed (ms ! i)"
  shows "length (filter is_failed ms) = 1"
  using assms
proof (induction ms arbitrary: k)
  case Nil
  then show ?case by simp
next
  case (Cons m ms)
  show ?case
  proof (cases k)
    case 0
    have "\<forall>x \<in> set ms. \<not> is_failed x"
    proof
      fix x assume "x \<in> set ms"
      then obtain i where "i < length ms" "ms ! i = x"
        by (auto simp: in_set_conv_nth)
      then show "\<not> is_failed x"
        using Cons.prems(3) [rule_format, of "Suc i"] 0 by auto
    qed
    then have "filter is_failed ms = []"
      by (simp add: filter_empty_conv)
    with 0 Cons.prems(2) show ?thesis by simp
  next
    case (Suc j)
    have ok: "\<not> is_failed m"
      using Cons.prems(3) [rule_format, of 0] Suc by simp
    have rest: "\<forall>i < length ms. i \<noteq> j \<longrightarrow> \<not> is_failed (ms ! i)"
    proof (intro allI impI)
      fix i assume "i < length ms" "i \<noteq> j"
      then show "\<not> is_failed (ms ! i)"
        using Cons.prems(3) [rule_format, of "Suc i"] Suc by simp
    qed
    have "length (filter is_failed ms) = 1"
      using Cons.IH [of j] Cons.prems(1,2) Suc rest by simp
    with ok show ?thesis by simp
  qed
qed

lemma three_way_count:
  "length ms = length (filter is_failed ms) + length (filter (is_skipped gr st) ms)
     + length (filter (\<lambda>m. \<not> is_failed m \<and> \<not> is_skipped gr st m) ms)"
  by (induction ms) (auto simp: is_failed_def is_skipped_def split: sum.splits)

text \<open>
  C5, amended. The server is reached and the search finds unseen messages. Exactly one
  of the \<open>N\<close> fetched messages, message \<open>k\<close> (counted from 0), makes the parser throw.
  Then the pass returns; its \<open>errors\<close> hold exactly one line, which names the message
  by its number \<open>k + 1\<close> and its UID and carries the message of the error; and
  \<open>processedCount\<close> is \<open>N - 1\<close> minus the number of messages that the rules skipped.
\<close>

theorem one_bad_message:
  assumes "connect_error env = None" and "lock_error env = None"
    and "search_result env = Inr uids" and "uids \<noteq> []"
    and "k < length (fetched env)"
    and "parse_result (fetched env ! k) = Inl err"
    and "\<forall>i < length (fetched env). i \<noteq> k \<longrightarrow> \<not> is_failed (fetched env ! i)"
  shows "fst (processEmails env gr st sv) =
           Inr \<lparr>res_processedCount =
                  length (fetched env) - 1 - length (filter (is_skipped gr st) (fetched env)),
                res_errors = [error_line (k + 1) (uid (fetched env ! k)) err]\<rparr>"
proof -
  have f: "is_failed (fetched env ! k)"
    using assms(6) by (simp add: is_failed_def)
  have one: "length (filter is_failed (fetched env)) = 1"
    using one_failed [OF assms(5) f assms(7)] .
  have cnt: "length (filter (\<lambda>m. \<not> is_failed m \<and> \<not> is_skipped gr st m) (fetched env))
             = length (fetched env) - 1 - length (filter (is_skipped gr st) (fetched env))"
    using three_way_count [of "fetched env" gr st] one by simp
  have errs: "error_lines 0 (fetched env) = [error_line (k + 1) (uid (fetched env ! k)) err]"
    using error_lines_one [OF assms(5,6,7), of 0] by simp
  show ?thesis
    by (simp add: processEmails_pass [OF assms(1-4)] process_messages_processed
          process_messages_errors cnt errs)
qed


lemmas pipe_eval = processEmails_def process_message_def processEmailClassification_def
  build_email_def isWeTransferEmail_def extractEmailAddress_def checkWhitelistStatus_def
  checkWhitelistStatus_try_def sender_lower_def classifyEmail_def classifyByKeywords_def
  keyword_list_def addEmail_def error_line_def mk_message_def failed_ai_def mk_parsed_mail_def
  mk_rule_def
  plain_settings_def empty_server_def str_eval num_eval Let_def

lemma pass_env_run:
  "processEmails pass_env (Inr block_rules) plain_settings empty_server =
     (Inr \<lparr>res_processedCount = 1,
           res_errors = [''Failed to process message 2 (UID: 12): Bad MIME'']\<rparr>,
      \<lparr>emails = [alice_stored], idCounter = 1, shouldStop = False, shouldStopParsing = False,
         timers = []\<rparr>)"
  by (simp add: pipe_eval pass_env_def good_message_def bad_message_def blocked_message_def
        block_rules_def alice_stored_def)

lemma blocked_is_skipped: "is_skipped (Inr block_rules) plain_settings blocked_message"
  by (simp add: is_skipped_def pipe_eval blocked_message_def block_rules_def)

lemma pass_env_skipped:
  "filter (is_skipped (Inr block_rules) plain_settings) (fetched pass_env) = [blocked_message]"
  by (simp add: pass_env_def is_skipped_def pipe_eval good_message_def bad_message_def
        blocked_message_def block_rules_def)

text \<open>
  C5, as stated, promises \<open>processedCount = N - 1\<close> when one of \<open>N\<close> messages throws.
  A message that the rules skip is not counted either: of three messages, the second
  cannot be parsed and the third comes from a blacklisted sender; the pass returns
  \<open>processedCount = 1\<close>, not 2, and one error line.
\<close>

theorem skipped_message_is_not_counted:
  "length (fetched pass_env) = 3
   \<and> is_failed (fetched pass_env ! 1) \<and> \<not> is_failed (fetched pass_env ! 0)
   \<and> \<not> is_failed (fetched pass_env ! 2)
   \<and> fst (processEmails pass_env (Inr block_rules) plain_settings empty_server) =
       Inr \<lparr>res_processedCount = 1,
            res_errors = [''Failed to process message 2 (UID: 12): Bad MIME'']\<rparr>"
  by (simp add: pass_env_run)
     (simp add: pass_env_def is_failed_def good_message_def bad_message_def blocked_message_def
        mk_message_def)


lemma wt_env_run:
  "emails (snd (processEmails wt_env (Inr wt_rules) plain_settings empty_server)) = [wt_stored]
   \<and> emails (snd (processEmails wt_env (Inr wt_rules)
                     (optimizedSettings wt_rules plain_settings) empty_server)) = [wt_stored]"
  by (simp add: pipe_eval optimizedSettings_def wt_env_def wt_message_def wt_rules_def
        wt_stored_def)

lemma wt_stored_routing:
  "checkWhitelistStatus (Inr wt_rules) wt_stored plain_settings = Skip
   \<and> checkWhitelistStatus (Inr wt_rules) wt_stored
        (optimizedSettings wt_rules plain_settings) = Skip"
  by (simp add: checkWhitelistStatus_def checkWhitelistStatus_try_def optimizedSettings_def
        wt_rules_def wt_stored_def plain_settings_def mk_rule_def sender_lower_def str_eval
        Let_def)

text \<open>
  In the optimized mode a sender is only skipped when its whole address is a blacklist
  pattern: with the domain \<open>junk.example\<close> blacklisted, the pass stores the email of
  \<open>spam@junk.example\<close>, which the fallback scan skips.
\<close>

lemma optimized_pass_stores_blacklisted_domain:
  "map senderEmail
     (emails (snd (processEmails domain_env (Inr domain_rules)
                     (optimizedSettings domain_rules plain_settings) empty_server)))
     = [Some ''spam@junk.example'']
   \<and> emails (snd (processEmails domain_env (Inr domain_rules) plain_settings empty_server)) = []"
  by (simp add: pipe_eval optimizedSettings_def domain_env_def domain_rules_def
        blocked_message_def)

text \<open>
  C1. After a pass no stored email is to have a sender that matches an active blacklist
  rule: such a message is to be routed \<open>skip\<close> and never handed to \<open>addEmail\<close>. The pass
  tests for a WeTransfer email before it asks the rules, and stores such an email as
  \<open>inbox\<close> without asking them. The only rule is an active blacklist rule for
  \<open>promo@wetransfer.com\<close>; the one fetched message comes from that address. In the plain
  and in the optimized mode the pass stores the email, classified \<open>inbox\<close>, although
  \<open>checkWhitelistStatus\<close> routes that very email \<open>skip\<close> in both modes.
\<close>

theorem wetransfer_bypasses_blacklist:
  "map (\<lambda>r. (rtype r, pattern r, active r)) wt_rules
     = [(Blacklist, ''promo@wetransfer.com'', True)]
   \<and> blacklistMap (optimizedSettings wt_rules plain_settings) = Some {''promo@wetransfer.com''}
   \<and> emails (snd (processEmails wt_env (Inr wt_rules) plain_settings empty_server)) = [wt_stored]
   \<and> emails (snd (processEmails wt_env (Inr wt_rules)
                     (optimizedSettings wt_rules plain_settings) empty_server)) = [wt_stored]
   \<and> senderEmail wt_stored = Some ''promo@wetransfer.com''
   \<and> classification wt_stored = Some CInbox
   \<and> checkWhitelistStatus (Inr wt_rules) wt_stored plain_settings = Skip
   \<and> checkWhitelistStatus (Inr wt_rules) wt_stored
        (optimizedSettings wt_rules plain_settings) = Skip"
  by (simp add: wt_env_run wt_stored_routing)
     (simp add: optimizedSettings_def wt_rules_def mk_rule_def wt_stored_def str_eval)

lemma process_message_same_data:
  "same_data a b \<Longrightarrow> same_data (process_message gr st m a) (process_message gr st m b)"
  by (simp add: same_data_def process_message_def addEmail_def Let_def
        split: sum.splits option.splits)

lemma process_messages_same_data:
  "same_data a b \<Longrightarrow> same_data (process_messages gr st ms a) (process_messages gr st ms b)"
  by (induction ms arbitrary: a b) (simp_all add: process_message_same_data)

lemma process_message_flags:
  "shouldStop (server (process_message gr st m a)) = shouldStop (server a)
   \<and> shouldStopParsing (server (process_message gr st m a)) = shouldStopParsing (server a)
   \<and> timers (server (process_message gr st m a)) = timers (server a)"
  by (simp add: process_message_def addEmail_def Let_def split: sum.splits option.splits)

lemma process_messages_flags:
  "shouldStop (server (process_messages gr st ms a)) = shouldStop (server a)
   \<and> shouldStopParsing (server (process_messages gr st ms a)) = shouldStopParsing (server a)
   \<and> timers (server (process_messages gr st ms a)) = timers (server a)"
  by (induction ms arbitrary: a) (simp_all add: process_message_flags)

lemma processEmails_same_store:
  assumes "emails sv' = emails sv" and "idCounter sv' = idCounter sv"
  shows "fst (processEmails env gr st sv') = fst (processEmails env gr st sv)
         \<and> emails (snd (processEmails env gr st sv')) = emails (snd (processEmails env gr st sv))"
proof -
  have "same_data
          (process_messages gr st (fetched env)
             \<lparr>server = sv', processedCount = 0, errors = [], messageCount = 0\<rparr>)
          (process_messages gr st (fetched env)
             \<lparr>server = sv, processedCount = 0, errors = [], messageCount = 0\<rparr>)"
    by (rule process_messages_same_data) (simp add: same_data_def assms)
  then show ?thesis
    using assms
    by (auto simp: processEmails_def Let_def same_data_def split: option.splits sum.splits)
qed

lemma stop_POST_store:
  "emails (stop_POST sv) = emails sv \<and> idCounter (stop_POST sv) = idCounter sv"
  by (simp add: stop_POST_def)

theorem one_bad_message_witness:
  "connect_error pass_env = None \<and> lock_error pass_env = None
   \<and> search_result pass_env = Inr [11, 12, 13]
   \<and> parse_result (fetched pass_env ! 1) = Inl (Error ''Bad MIME'')
   \<and> length (fetched pass_env) = 3
   \<and> length (filter (is_skipped (Inr block_rules) plain_settings) (fetched pass_env)) = 1
   \<and> fst (processEmails pass_env (Inr block_rules) plain_settings empty_server) =
       Inr \<lparr>res_processedCount = 3 - 1 - 1,
            res_errors = [error_line 2 12 (Error ''Bad MIME'')]\<rparr>"
proof -
  have a: "connect_error pass_env = None" "lock_error pass_env = None"
    "search_result pass_env = Inr [11, 12, 13]" "[11, 12, 13 :: nat] \<noteq> []"
    "1 < length (fetched pass_env)"
    "parse_result (fetched pass_env ! 1) = Inl (Error ''Bad MIME'')"
    by (simp_all add: pass_env_def bad_message_def mk_message_def)
  have b: "\<forall>i < length (fetched pass_env). i \<noteq> 1 \<longrightarrow> \<not> is_failed (fetched pass_env ! i)"
    by (simp add: pass_env_def is_failed_def good_message_def blocked_message_def
          mk_message_def less_Suc_eq all_conj_distrib)
  have c: "uid (fetched pass_env ! 1) = 12" "length (fetched pass_env) = 3"
    by (simp_all add: pass_env_def bad_message_def mk_message_def)
  from one_bad_message [OF a b, of "Inr block_rules" plain_settings empty_server] a c
  show ?thesis
    by (simp add: pass_env_skipped numeral_2_eq_2)
qed

text \<open>
  What the pass does guarantee: every email that it adds to the store is a WeTransfer
  email, or an email that \<open>checkWhitelistStatus\<close> does not route \<open>skip\<close>; and in the
  optimized mode no stored email other than a WeTransfer email has a lowered sender
  address that is the lowered pattern of an active blacklist rule.
\<close>

lemma stored_emails_pass_the_gate:
  "(\<forall>e \<in> set (drop (length (emails sv)) (emails (snd (processEmails env gr st sv)))).
      isWeTransferEmail e \<or> checkWhitelistStatus gr e st \<noteq> Skip)
   \<and> (\<forall>e \<in> set (drop (length (emails sv))
                   (emails (snd (processEmails env gr (optimizedSettings rules st) sv)))).
      isWeTransferEmail e
      \<or> sender_lower e \<notin> set (map (\<lambda>r. toLowerCase (pattern r))
                                  (filter (\<lambda>r. rtype r = Blacklist \<and> active r) rules)))"
proof (intro conjI ballI)
  fix e
  assume e: "e \<in> set (drop (length (emails sv)) (emails (snd (processEmails env gr st sv))))"
  obtain added where "emails (snd (processEmails env gr st sv)) = emails sv @ added"
      "\<forall>x \<in> set added. may_store gr st x"
    using processEmails_emails by blast
  with e show "isWeTransferEmail e \<or> checkWhitelistStatus gr e st \<noteq> Skip"
    by (simp add: may_store_def)
next
  fix e
  let ?st = "optimizedSettings rules st"
  let ?bl = "set (map (\<lambda>r. toLowerCase (pattern r))
                   (filter (\<lambda>r. rtype r = Blacklist \<and> active r) rules))"
  assume e: "e \<in> set (drop (length (emails sv)) (emails (snd (processEmails env gr ?st sv))))"
  obtain added where "emails (snd (processEmails env gr ?st sv)) = emails sv @ added"
      "\<forall>x \<in> set added. may_store gr ?st x"
    using processEmails_emails by blast
  with e have m: "isWeTransferEmail e \<or> checkWhitelistStatus gr e ?st \<noteq> Skip"
    by (simp add: may_store_def)
  have "blacklistMap ?st = Some ?bl"
    by (simp add: optimizedSettings_def)
  moreover have "\<exists>wl. whitelistMap ?st = Some wl"
    by (simp add: optimizedSettings_def)
  ultimately have "sender_lower e \<in> ?bl \<Longrightarrow> checkWhitelistStatus gr e ?st = Skip"
    using optimized_routing [of ?st _ ?bl gr e] by auto
  with m show "isWeTransferEmail e \<or> sender_lower e \<notin> ?bl"
    by blast
qed

lemma stop_env_run:
  "processEmails stop_env (Inr []) plain_settings empty_server =
     (Inr \<lparr>res_processedCount = 2, res_errors = []\<rparr>,
      \<lparr>emails =
         [alice_stored,
          \<lparr>email_id = ''2'', subject = ''Estimate request'',
           from_hdr = ''Carol <carol@example.com>'',
           to_hdr = ''shop@example.com'', date = ''2024-01-15T10:00:00.000Z'',
           body = ''How much for 100 flyers?'', attachments = [],
           parsed = Some \<lparr>ptype = Other, pconfidence = 1 / 2\<rparr>,
           status = Processed, classification = Some CUnsorted,
           senderEmail = Some ''carol@example.com''\<rparr>],
       idCounter = 2, shouldStop = False, shouldStopParsing = False, timers = []\<rparr>)"
  by (simp add: pipe_eval stop_env_def good_message_def second_message_def alice_stored_def)

text \<open>
  C7. The pass is to poll the soft-stop flag between messages and stop early. It does
  not read the flag. A stop request that is handled while a pass is under way, in
  whatever state \<open>ps\<close> the loop is, changes nothing in what the loop does with the
  remaining messages: the counts, the error lines and the stored emails are the same as
  without the request. Likewise the result of a whole pass that starts after a stop
  request is the result without it. After a stop request both flags are set; a pass
  over two messages that starts then processes both and stores both. The stop request
  arms a timer of 5000 ms, and when it expires both flags are clear again.
\<close>

theorem pass_ignores_stop_flag:
  "same_data (process_messages gr st ms (ps\<lparr>server := stop_POST (server ps)\<rparr>))
             (process_messages gr st ms ps)
   \<and> fst (processEmails env gr st (stop_POST sv)) = fst (processEmails env gr st sv)
   \<and> shouldStop (stop_POST empty_server) \<and> shouldStopParsing (stop_POST empty_server)
   \<and> length (fetched stop_env) = 2
   \<and> fst (processEmails stop_env (Inr []) plain_settings (stop_POST empty_server))
       = Inr \<lparr>res_processedCount = 2, res_errors = []\<rparr>
   \<and> map senderEmail
         (emails (snd (processEmails stop_env (Inr []) plain_settings (stop_POST empty_server))))
       = [Some ''alice@example.com'', Some ''carol@example.com'']
   \<and> timers (stop_POST empty_server) = [(5000, ResetStopFlags)]
   \<and> \<not> shouldStop (fire_timer (stop_POST empty_server))
   \<and> \<not> shouldStopParsing (fire_timer (stop_POST empty_server))"
proof -
  note same = processEmails_same_store
                [OF stop_POST_store [THEN conjunct1] stop_POST_store [THEN conjunct2]]
  have g: "same_data (process_messages gr st ms (ps\<lparr>server := stop_POST (server ps)\<rparr>))
             (process_messages gr st ms ps)"
    by (rule process_messages_same_data) (simp add: same_data_def stop_POST_def)
  have f: "fst (processEmails stop_env (Inr []) plain_settings (stop_POST empty_server))
       = Inr \<lparr>res_processedCount = 2, res_errors = []\<rparr>"
    using same by (simp add: stop_env_run)
  have e: "map senderEmail
         (emails (snd (processEmails stop_env (Inr []) plain_settings (stop_POST empty_server))))
       = [Some ''alice@example.com'', Some ''carol@example.com'']"
    using same by (simp add: stop_env_run alice_stored_def)
  show ?thesis
    using g f e same
    by (simp add: stop_POST_def fire_timer_def empty_server_def stop_env_def)
qed

section \<open>Job Runner: properties\<close>

lemmas job_eval = jobs_POST_def getCurrentJob_def createJob_def processJob_begin_def
  cleanupJobs_def getAllJobs_def updateJob_def processJob_resume_def processJob_complete_def
  processJob_finally_def running_jobs_def job_req_def empty_queue_def pending_job_def
  plain_settings_def num_eval Let_def

text \<open>
  While the job in the slot is \<open>running\<close>, a submission is answered without a new job,
  and no variable of the job queue changes.
\<close>

lemma submission_rejected_while_current_running:
  assumes "currentJob q = Some c" and "job_status c = Running"
  shows "snd (jobs_POST req q) = q \<and> (\<forall>j. fst (jobs_POST req q) \<noteq> Created j)"
  using assms by (simp add: jobs_POST_def getCurrentJob_def split: option.splits)

lemma post_1:
  "jobs_POST job_req empty_queue =
     (Created (pending_job 1),
      \<lparr>jobs = [(''email-processing-1'', pending_job 1)], currentJob = Some (pending_job 1),
       jobIdCounter = 1\<rparr>)"
  by (simp add: job_eval)

lemma queue_1_value:
  "queue_1 =
     \<lparr>jobs = [(''email-processing-1'', pending_job 1)], currentJob = Some (pending_job 1),
      jobIdCounter = 1\<rparr>"
  by (simp add: queue_1_def post_1)

lemma post_2:
  "jobs_POST job_req queue_1 =
     (Created (pending_job 2),
      \<lparr>jobs = [(''email-processing-1'', pending_job 1), (''email-processing-2'', pending_job 2)],
       currentJob = Some (pending_job 2), jobIdCounter = 2\<rparr>)"
  unfolding queue_1_value by (simp add: job_eval)

lemma queue_2_value:
  "queue_2 =
     \<lparr>jobs = [(''email-processing-1'', pending_job 1), (''email-processing-2'', pending_job 2)],
      currentJob = Some (pending_job 2), jobIdCounter = 2\<rparr>"
  by (simp add: queue_2_def post_2)

lemma queue_3_running:
  "map (\<lambda>j. (job_id j, job_status j)) (running_jobs queue_3) =
     [(''email-processing-1'', Running), (''email-processing-2'', Running)]"
  unfolding queue_3_def queue_2_value by (simp add: job_eval)

lemma queue_4_running:
  "map (\<lambda>j. (job_id j, job_status j)) (running_jobs queue_4) = [(''email-processing-1'', Running)]
   \<and> currentJob queue_4 = None"
  unfolding queue_4_def queue_3_def queue_2_value by (simp add: job_eval)

lemma post_3: "fst (jobs_POST job_req queue_4) = Created (pending_job 3)"
  unfolding queue_4_def queue_3_def queue_2_value by (simp add: job_eval)

text \<open>
  C6. A submission while a job is \<open>running\<close> is to be rejected, so that at most one job
  is \<open>running\<close> at any instant. The check of the \<open>POST\<close> handler and of \<open>processJob\<close> reads
  the status of the job in the slot, and \<open>processJob\<close> sets that status to \<open>running\<close> only
  after its first \<open>await\<close>. A second submission handled before the first job has resumed
  finds a \<open>pending\<close> job in the slot and is accepted; both jobs then resume and both are
  \<open>running\<close>. When the second job completes, its \<open>finally\<close> block clears the slot while
  the first job is still \<open>running\<close>, and a third submission is accepted.
\<close>

theorem two_jobs_running:
  "jobs_POST job_req empty_queue = (Created (pending_job 1), queue_1)
   \<and> map job_status (map snd (jobs queue_1)) = [Pending]
   \<and> jobs_POST job_req queue_1 = (Created (pending_job 2), queue_2)
   \<and> map (\<lambda>j. (job_id j, job_status j)) (running_jobs queue_3) =
       [(''email-processing-1'', Running), (''email-processing-2'', Running)]
   \<and> map (\<lambda>j. (job_id j, job_status j)) (running_jobs queue_4) =
       [(''email-processing-1'', Running)]
   \<and> currentJob queue_4 = None
   \<and> fst (jobs_POST job_req queue_4) = Created (pending_job 3)"
proof -
  have "map job_status (map snd (jobs queue_1)) = [Pending]"
    by (simp add: queue_1_value pending_job_def)
  then show ?thesis
    using post_1 post_2 queue_3_running queue_4_running post_3
    by (simp add: queue_1_value queue_2_value)
qed

end
